theory Spec2Isabelle
  imports Main
begin

section \<open>JavaScript strings\<close>

text \<open>
  Strings are byte strings holding UTF-8. \<open>String.prototype.trim\<close> and \<open>parseInt\<close> strip
  the ECMAScript white space and line terminator characters. Six of them are one byte long
  (TAB, LF, VT, FF, CR, SP); U+00A0 is two bytes; U+1680, U+2000 to U+200A, U+2028,
  U+2029, U+202F, U+205F, U+3000 and U+FEFF are three bytes.
\<close>

definition is_ws :: "char \<Rightarrow> bool" where
  "is_ws c = (c = CHR 0x09 \<or> c = CHR 0x0A \<or> c = CHR 0x0B \<or> c = CHR 0x0C
              \<or> c = CHR 0x0D \<or> c = CHR 0x20)"

definition is_ws2 :: "char \<Rightarrow> char \<Rightarrow> bool" where
  "is_ws2 a b = (a = CHR 0xC2 \<and> b = CHR 0xA0)"

definition is_ws3 :: "char \<Rightarrow> char \<Rightarrow> char \<Rightarrow> bool" where
  "is_ws3 a b c =
     ((a = CHR 0xE1 \<and> b = CHR 0x9A \<and> c = CHR 0x80)
      \<or> (a = CHR 0xE2 \<and> b = CHR 0x80
           \<and> c \<in> set [CHR 0x80, CHR 0x81, CHR 0x82, CHR 0x83, CHR 0x84, CHR 0x85, CHR 0x86,
                        CHR 0x87, CHR 0x88, CHR 0x89, CHR 0x8A, CHR 0xA8, CHR 0xA9, CHR 0xAF])
      \<or> (a = CHR 0xE2 \<and> b = CHR 0x81 \<and> c = CHR 0x9F)
      \<or> (a = CHR 0xE3 \<and> b = CHR 0x80 \<and> c = CHR 0x80)
      \<or> (a = CHR 0xEF \<and> b = CHR 0xBB \<and> c = CHR 0xBF))"

text \<open>Dropping the white space at the front of a string.\<close>

fun skip_ws :: "string \<Rightarrow> string" where
  "skip_ws (a # b # c # s) =
     (if is_ws a then skip_ws (b # c # s)
      else if is_ws2 a b then skip_ws (c # s)
      else if is_ws3 a b c then skip_ws s
      else a # b # c # s)"
| "skip_ws [a, b] =
     (if is_ws a then skip_ws [b] else if is_ws2 a b then [] else [a, b])"
| "skip_ws [a] = (if is_ws a then [] else [a])"
| "skip_ws [] = []"

text \<open>The same on a reversed string, where the bytes of a character come last byte
  first: it drops the white space at the end of the string that was reversed.\<close>

fun skip_ws_back :: "string \<Rightarrow> string" where
  "skip_ws_back (c # b # a # s) =
     (if is_ws c then skip_ws_back (b # a # s)
      else if is_ws2 b c then skip_ws_back (a # s)
      else if is_ws3 a b c then skip_ws_back s
      else c # b # a # s)"
| "skip_ws_back [c, b] =
     (if is_ws c then skip_ws_back [b] else if is_ws2 b c then [] else [c, b])"
| "skip_ws_back [c] = (if is_ws c then [] else [c])"
| "skip_ws_back [] = []"

definition trim :: "string \<Rightarrow> string" where
  "trim s = rev (skip_ws_back (rev (skip_ws s)))"

text \<open>A string is truthy in JavaScript exactly when it is not empty.\<close>

definition truthy_str :: "string \<Rightarrow> bool" where
  "truthy_str s = (s \<noteq> [])"

section \<open>gmailUtils.js\<close>

text \<open>
  A message row is seen through \<open>row.querySelector\<close>: the row's descendant elements in
  document order, each with its attributes and its \<open>textContent\<close>.
  \<open>querySelector('[a]')\<close> is the first descendant that has attribute \<open>a\<close>, or null.
\<close>

record element =
  attrs :: "(string \<times> string) list"
  textContent :: string

type_synonym message_row = "element list"

definition hasAttribute :: "string \<Rightarrow> element \<Rightarrow> bool" where
  "hasAttribute a e = (a \<in> set (map fst (attrs e)))"

definition getAttribute :: "string \<Rightarrow> element \<Rightarrow> string option" where
  "getAttribute a e = map_of (attrs e) a"

definition querySelector_attr :: "string \<Rightarrow> message_row \<Rightarrow> element option" where
  "querySelector_attr a row = find (hasAttribute a) row"

text \<open>\<open>getSenderEmail\<close>: the \<open>email\<close> attribute of the first \<open>[email]\<close> element, else the
  \<open>name\<close> attribute of the first \<open>[name]\<close> element, else null (\<open>None\<close>).\<close>

definition getSenderEmail :: "message_row \<Rightarrow> string option" where
  "getSenderEmail row =
     (case querySelector_attr ''email'' row of
        Some emailElement \<Rightarrow> getAttribute ''email'' emailElement
      | None \<Rightarrow>
         (case querySelector_attr ''name'' row of
            Some nameElement \<Rightarrow> getAttribute ''name'' nameElement
          | None \<Rightarrow> None))"

text \<open>\<open>a || b\<close> on a string-or-null left operand: null and the empty string are falsy.\<close>

definition or_else :: "string option \<Rightarrow> string \<Rightarrow> string" where
  "or_else a b = (case a of None \<Rightarrow> b | Some s \<Rightarrow> if truthy_str s then s else b)"

definition getSenderDisplayName :: "message_row \<Rightarrow> string" where
  "getSenderDisplayName row =
     (case querySelector_attr ''name'' row of
        Some nameElement \<Rightarrow>
          if truthy_str (textContent nameElement) then trim (textContent nameElement)
          else or_else (getSenderEmail row) ''Unknown Sender''
      | None \<Rightarrow> or_else (getSenderEmail row) ''Unknown Sender'')"

section \<open>contentScript.js: initialization and its retry loop\<close>

text \<open>
  The fields of \<open>UnclutExtension\<close> that initialization reads and writes. The constructor
  sets \<open>retryCount = 0\<close> and \<open>maxRetries = 5\<close>.
\<close>

record extension =
  initialized :: bool
  retryCount :: nat
  maxRetries :: nat

definition new_extension :: extension where
  "new_extension = \<lparr>initialized = False, retryCount = 0, maxRetries = 5\<rparr>"

text \<open>\<open>Math.min(1000 * Math.pow(2, this.retryCount), 30000)\<close>, in milliseconds.\<close>

definition backoff_delay :: "nat \<Rightarrow> nat" where
  "backoff_delay n = min (1000 * 2 ^ n) 30000"

text \<open>
  \<open>retryInitialization\<close>: below the ceiling it increments the counter and hands
  \<open>setTimeout\<close> the delay computed from the incremented counter (\<open>Some delay\<close>);
  at the ceiling it logs that it gives up and schedules nothing (\<open>None\<close>).
\<close>

definition retryInitialization :: "extension \<Rightarrow> extension \<times> nat option" where
  "retryInitialization this =
     (if retryCount this < maxRetries this
      then (let this' = this\<lparr>retryCount := retryCount this + 1\<rparr>
            in (this', Some (backoff_delay (retryCount this'))))
      else (this, None))"

text \<open>
  \<open>init\<close>: returns at once when already initialized; otherwise it runs the set-up
  steps, and either one of them throws (the promise rejects, \<open>False\<close>) or it sets
  \<open>initialized\<close> and resolves (\<open>True\<close>). Whether a step throws is decided by the page,
  so it is a parameter.
\<close>

definition init :: "bool \<Rightarrow> extension \<Rightarrow> extension \<times> bool" where
  "init throws this =
     (if initialized this then (this, True)
      else if throws then (this, False)
      else (this\<lparr>initialized := True\<rparr>, True))"

text \<open>
  The chain started by the constructor: \<open>init().catch(... retryInitialization())\<close>, and
  in each timer callback again \<open>init().catch(... retryInitialization())\<close>.
  \<open>throws k\<close> says whether the set-up steps throw in the \<open>k\<close>-th call of \<open>init\<close>.
  The result is the list of delays handed to \<open>setTimeout\<close>, one per scheduled retry,
  in order. The recursion ends because every scheduled retry moves the counter towards
  the ceiling.
\<close>

function attempts :: "(nat \<Rightarrow> bool) \<Rightarrow> nat \<Rightarrow> extension \<Rightarrow> nat list" where
  "attempts throws k this =
     (case init (throws k) this of
        (this', True) \<Rightarrow> []
      | (this', False) \<Rightarrow>
          (case retryInitialization this' of
             (this'', None) \<Rightarrow> []
           | (this'', Some delay) \<Rightarrow> delay # attempts throws (Suc k) this''))"
  by pat_completeness auto
termination
  apply (relation "measure (\<lambda>(throws, k, this). maxRetries this - retryCount this)")
   apply simp
  apply (auto simp: init_def retryInitialization_def Let_def split: if_splits)
  done

definition construct :: "(nat \<Rightarrow> bool) \<Rightarrow> nat list" where
  "construct throws = attempts throws 0 new_extension"

section \<open>JavaScript values and \<open>chrome.storage.sync\<close>\<close>

text \<open>
  The values the scripts store. Every finite number these scripts handle is an integer
  (\<open>JNum\<close>); \<open>Infinity\<close> and \<open>-Infinity\<close> are values of their own. An object literal is the
  list of its properties in source order. The storage area maps keys to values.
  \<open>chrome.storage.sync.get(defaults, callback)\<close> hands the callback an object with the
  keys of \<open>defaults\<close>, each with its stored value, or with the default where the key is
  not stored; \<open>chrome.storage.sync.set(items)\<close> stores the properties of \<open>items\<close> and
  leaves every other key as it is.
\<close>

datatype jsval =
    JStr string
  | JNum int
  | JInfinity
  | JNegInfinity
  | JBool bool
  | JObj "(string \<times> jsval) list"

type_synonym js_object = "(string \<times> jsval) list"

type_synonym storage = "string \<rightharpoonup> jsval"

definition storage_get :: "js_object \<Rightarrow> storage \<Rightarrow> js_object" where
  "storage_get defaults st =
     map (\<lambda>(k, d). (k, case st k of Some v \<Rightarrow> v | None \<Rightarrow> d)) defaults"

definition storage_set :: "js_object \<Rightarrow> storage \<Rightarrow> storage" where
  "storage_set items st = fold (\<lambda>(k, v) m. m(k \<mapsto> v)) items st"

section \<open>background.js\<close>

text \<open>
  An \<open>async\<close> function is modelled by what it does and how its promise settles: the list
  of its observable effects, and \<open>Inr v\<close> when the promise resolves with \<open>v\<close>, \<open>Inl e\<close>
  when it rejects with \<open>e\<close>. Every call the script can make to the outside (console,
  timers, the identity API, \<open>fetch\<close>, \<open>sendResponse\<close>) is an effect, so a function that
  calls a web API shows a \<open>Fetch\<close> in its list.
\<close>

text \<open>An error object is known by its message.\<close>

datatype js_error = Error string

record action_result =
  success :: bool
  message :: string
  timestamp :: "string option"
  count :: "nat option"

record both_results =
  unsubResult :: action_result
  deleteResult :: action_result

datatype action_data = Single action_result | Both both_results

datatype response = Success action_data | Failure string

datatype bg_effect =
    ConsoleLog string
  | ConsoleError string js_error
  | SetTimeout nat
  | GetAuthToken bool
  | Fetch string string
  | SendResponse response
  | StorageSyncSet js_object

type_synonym 'a promise = "bg_effect list \<times> (js_error + 'a)"

definition resolve :: "'a \<Rightarrow> 'a promise" where
  "resolve v = ([], Inr v)"

definition throw :: "js_error \<Rightarrow> 'a promise" where
  "throw e = ([], Inl e)"

definition effect :: "bg_effect \<Rightarrow> unit promise" where
  "effect x = ([x], Inr ())"

text \<open>\<open>await m; f\<close>: the continuation runs only when \<open>m\<close> resolves.\<close>

definition await :: "'a promise \<Rightarrow> ('a \<Rightarrow> 'b promise) \<Rightarrow> 'b promise" where
  "await m f =
     (case m of
        (es, Inl e) \<Rightarrow> (es, Inl e)
      | (es, Inr v) \<Rightarrow> (case f v of (es', r) \<Rightarrow> (es @ es', r)))"

text \<open>\<open>try { m } catch (error) { h error }\<close>.\<close>

definition try_catch :: "'a promise \<Rightarrow> (js_error \<Rightarrow> 'a promise) \<Rightarrow> 'a promise" where
  "try_catch m h =
     (case m of
        (es, Inl e) \<Rightarrow> (case h e of (es', r) \<Rightarrow> (es @ es', r))
      | (es, Inr v) \<Rightarrow> (es, Inr v))"

text \<open>\<open>new Promise(resolve => setTimeout(resolve, ms))\<close>: a timer that always fires.\<close>

definition sleep :: "nat \<Rightarrow> unit promise" where
  "sleep ms = effect (SetTimeout ms)"

text \<open>
  \<open>Promise.all([p, q])\<close> with both calls already made, \<open>p\<close> first: the effects of both
  happen, and the join rejects with the first rejection, else resolves with the pair.
\<close>

definition promise_all :: "'a promise \<Rightarrow> 'b promise \<Rightarrow> ('a \<times> 'b) promise" where
  "promise_all p q =
     (fst p @ fst q,
      case snd p of
        Inl e \<Rightarrow> Inl e
      | Inr a \<Rightarrow> (case snd q of Inl e \<Rightarrow> Inl e | Inr b \<Rightarrow> Inr (a, b)))"

text \<open>
  \<open>processUnsubscribe\<close> and \<open>processDelete\<close>. \<open>now\<close> is what
  \<open>new Date().toISOString()\<close> reads when the timer has fired.
\<close>

definition processUnsubscribe :: "string \<Rightarrow> string \<Rightarrow> action_result promise" where
  "processUnsubscribe senderEmail now =
     await (effect (ConsoleLog (''Attempting to unsubscribe from '' @ senderEmail))) (\<lambda>_.
       try_catch
         (await (sleep 1000) (\<lambda>_.
            resolve \<lparr>success = True,
                     message = ''Successfully unsubscribed from '' @ senderEmail,
                     timestamp = Some now,
                     count = None\<rparr>))
         (\<lambda>error.
            await (effect (ConsoleError ''Error unsubscribing:'' error)) (\<lambda>_.
              throw (Error (''Failed to unsubscribe from '' @ senderEmail)))))"

definition processDelete :: "string \<Rightarrow> string \<Rightarrow> action_result promise" where
  "processDelete senderEmail now =
     await (effect (ConsoleLog (''Attempting to delete emails from '' @ senderEmail))) (\<lambda>_.
       try_catch
         (await (sleep 1000) (\<lambda>_.
            resolve \<lparr>success = True,
                     message = ''Successfully deleted emails from '' @ senderEmail,
                     timestamp = Some now,
                     count = Some 42\<rparr>))
         (\<lambda>error.
            await (effect (ConsoleError ''Error deleting emails:'' error)) (\<lambda>_.
              throw (Error (''Failed to delete emails from '' @ senderEmail)))))"

text \<open>The \<open>chrome.runtime.onInstalled\<close> listener.\<close>

definition onInstalled :: "bg_effect list" where
  "onInstalled =
     [ConsoleLog ''unclut.ai extension installed'', StorageSyncSet [(''settings'', JObj [])]]"

text \<open>
  The script's global \<open>state\<close>, and what the browser answers during authentication:
  the token \<open>chrome.identity.getAuthToken\<close> delivers (\<open>None\<close> when
  \<open>chrome.runtime.lastError\<close> is set) and the outcome of the user-info request.
\<close>

record bg_state =
  isAuthenticated :: bool
  currentUser :: "string option"
  lastAction :: "string option"

definition initial_state :: bg_state where
  "initial_state = \<lparr>isAuthenticated = False, currentUser = None, lastAction = None\<rparr>"

text \<open>
  The user-info request: \<open>fetch\<close> rejects (with the browser's message), or the response is
  not ok, or its body is not JSON (\<open>response.json()\<close> rejects, with the parser's message), or
  it is the user's data.
\<close>

datatype fetch_outcome = NetworkError string | NotOk | BadJson string | OkJson string

record browser =
  authToken :: "string option"
  userInfoResponse :: fetch_outcome
  clock :: "nat \<Rightarrow> string"

definition fetchUserInfo :: "string \<Rightarrow> fetch_outcome \<Rightarrow> string promise" where
  "fetchUserInfo token outcome =
     await (effect (Fetch ''https://www.googleapis.com/oauth2/v2/userinfo''
                          (''Bearer '' @ token))) (\<lambda>_.
       case outcome of
         NetworkError msg \<Rightarrow> throw (Error msg)
       | NotOk \<Rightarrow> throw (Error ''Failed to fetch user info'')
       | BadJson msg \<Rightarrow> throw (Error msg)
       | OkJson userInfo \<Rightarrow> resolve userInfo)"

text \<open>
  \<open>ensureAuthenticated\<close>. When \<open>chrome.runtime.lastError\<close> is set, the token promise rejects
  with \<open>new Error(chrome.runtime.lastError)\<close>: the constructor turns its argument, an
  object, into the message \<open>[object Object]\<close>. Whatever fails, the function logs it and
  throws its own error.
\<close>

definition ensureAuthenticated :: "bg_state \<Rightarrow> browser \<Rightarrow> bg_state \<times> bool promise" where
  "ensureAuthenticated state b =
     (if isAuthenticated state then (state, resolve True)
      else
        (case try_catch
                (await (effect (GetAuthToken True)) (\<lambda>_.
                   case authToken b of
                     None \<Rightarrow> throw (Error ''[object Object]'')
                   | Some token \<Rightarrow> fetchUserInfo token (userInfoResponse b)))
                (\<lambda>error.
                   await (effect (ConsoleError ''Authentication failed:'' error)) (\<lambda>_.
                     throw (Error ''Authentication required. Please sign in to continue.'')))
         of
           (es, Inl e) \<Rightarrow> (state, (es, Inl e))
         | (es, Inr userInfo) \<Rightarrow>
             (state\<lparr>isAuthenticated := True, currentUser := Some userInfo\<rparr>, (es, Inr True))))"

text \<open>
  \<open>handleAction\<close> of the background script: log, authenticate, then dispatch on the
  action; any error is logged and thrown again. In the \<open>'both'\<close> case the two stubs are
  called in order and joined; the first timer to fire reads the clock first.
\<close>

definition handleAction ::
  "bg_state \<Rightarrow> browser \<Rightarrow> string \<Rightarrow> string \<Rightarrow> bg_state \<times> action_data promise" where
  "handleAction state b senderEmail action =
     (case ensureAuthenticated state b of (state', auth) \<Rightarrow>
        (state',
         await (effect (ConsoleLog (''Processing '' @ action @ '' for '' @ senderEmail))) (\<lambda>_.
           try_catch
             (await auth (\<lambda>_.
                if action = ''unsubscribe'' then
                  await (processUnsubscribe senderEmail (clock b 0)) (\<lambda>r. resolve (Single r))
                else if action = ''delete'' then
                  await (processDelete senderEmail (clock b 0)) (\<lambda>r. resolve (Single r))
                else if action = ''both'' then
                  await (promise_all (processUnsubscribe senderEmail (clock b 0))
                                     (processDelete senderEmail (clock b 1)))
                    (\<lambda>(u, d). resolve (Both \<lparr>unsubResult = u, deleteResult = d\<rparr>))
                else throw (Error (''Unknown action: '' @ action))))
             (\<lambda>error.
                await (effect (ConsoleError ''Error processing action:'' error)) (\<lambda>_.
                  throw error)))))"

text \<open>
  The \<open>chrome.runtime.onMessage\<close> listener. It returns \<open>true\<close> (it will answer later)
  for a \<open>processAction\<close> request and nothing otherwise.
\<close>

record request =
  req_type :: string
  req_senderEmail :: string
  req_action :: string

definition error_message :: "js_error \<Rightarrow> string" where
  "error_message e = (case e of Error m \<Rightarrow> m)"

definition onMessage :: "bg_state \<Rightarrow> browser \<Rightarrow> request \<Rightarrow> bg_state \<times> bg_effect list \<times> bool" where
  "onMessage state b request =
     (if req_type request = ''processAction'' then
        (case handleAction state b (req_senderEmail request) (req_action request) of
           (state', es, Inr result) \<Rightarrow> (state', es @ [SendResponse (Success result)], True)
         | (state', es, Inl error) \<Rightarrow>
             (state', es @ [SendResponse (Failure (error_message error))], True))
      else (state, [], False))"

section \<open>actions.js\<close>

text \<open>The three exported handlers; they log and return at once.\<close>

record combined_result = both_results +
  combined_success :: bool

definition unsubscribe :: "string \<Rightarrow> action_result promise" where
  "unsubscribe senderEmail =
     await (effect (ConsoleLog (''[Actions] Unsubscribing from '' @ senderEmail))) (\<lambda>_.
       resolve \<lparr>success = True, message = ''Unsubscribed from '' @ senderEmail,
                timestamp = None, count = None\<rparr>)"

definition deleteEmails :: "string \<Rightarrow> action_result promise" where
  "deleteEmails senderEmail =
     await (effect (ConsoleLog (''[Actions] Deleting emails from '' @ senderEmail))) (\<lambda>_.
       resolve \<lparr>success = True, message = ''Deleted emails from '' @ senderEmail,
                timestamp = None, count = Some 0\<rparr>)"

definition combine :: "action_result \<Rightarrow> action_result \<Rightarrow> combined_result" where
  "combine u d =
     \<lparr>unsubResult = u, deleteResult = d, combined_success = (success u \<and> success d)\<rparr>"

definition unsubscribeAndDelete :: "string \<Rightarrow> combined_result promise" where
  "unsubscribeAndDelete senderEmail =
     await (effect (ConsoleLog (''[Actions] Unsubscribing and deleting from '' @ senderEmail))) (\<lambda>_.
       await (promise_all (unsubscribe senderEmail) (deleteEmails senderEmail))
         (\<lambda>(u, d). resolve (combine u d)))"

section \<open>contentScript.js: buttons, actions and toasts\<close>

text \<open>
  What the content script does to the page and to the extension runtime, as effects.
  \<open>ShowToast message showUndo isSuccess\<close> is a call of \<open>showToast\<close>, which fills
  the toast element, colours it by \<open>isSuccess\<close> and makes it visible.
  \<open>chrome.runtime.sendMessage\<close> either resolves with the receiver's response (or with
  \<open>undefined\<close>) or fails; a failure reaches the \<open>catch\<close> block whether the call throws
  or its promise rejects.
\<close>

datatype cs_effect =
    CsLog string
  | CsError string js_error
  | ShowToast string bool bool
  | SendMessage request
  | StopPropagation
  | HideContainer

datatype send_outcome = Resolved "response option" | Rejected js_error

definition showToast :: "string \<Rightarrow> bool \<Rightarrow> bool \<Rightarrow> cs_effect list" where
  "showToast msg showUndo isSuccess = [ShowToast msg showUndo isSuccess]"

text \<open>
  \<open>UnclutExtension.handleAction\<close>, in two parts: what runs inside the caller's turn, up
  to the \<open>await\<close>, and what runs when the message send has settled.
\<close>

definition handleAction_start :: "string \<Rightarrow> string \<Rightarrow> cs_effect list" where
  "handleAction_start senderEmail action =
     [CsLog (''Action: '' @ action @ '' for '' @ senderEmail)]
     @ showToast (''Processing '' @ action @ '' for '' @ senderEmail @ ''...'') True True
     @ [SendMessage \<lparr>req_type = ''processAction'', req_senderEmail = senderEmail,
                     req_action = action\<rparr>]"

definition handleAction_settled :: "string \<Rightarrow> string \<Rightarrow> send_outcome \<Rightarrow> cs_effect list" where
  "handleAction_settled senderEmail action outcome =
     (case outcome of
        Resolved response \<Rightarrow>
          showToast (''Successfully processed '' @ action @ '' for '' @ senderEmail) False True
      | Rejected error \<Rightarrow>
          [CsError ''Error processing action:'' error]
          @ showToast (''Failed to process '' @ action @ '' for '' @ senderEmail) False False)"

definition ext_handleAction :: "string \<Rightarrow> string \<Rightarrow> send_outcome \<Rightarrow> cs_effect list" where
  "ext_handleAction senderEmail action outcome =
     handleAction_start senderEmail action @ handleAction_settled senderEmail action outcome"

text \<open>
  The menu \<open>injectButtons\<close> builds for a row: one item per entry of \<open>actions\<close>, each with
  a click listener closed over the row's sender address and the entry's action.
\<close>

record button_item =
  label :: string
  item_senderEmail :: string
  item_action :: string

definition actions :: "(string \<times> string) list" where
  "actions = [(''Unsubscribe'', ''unsubscribe''), (''Delete All'', ''delete''),
              (''Unsubscribe + Delete'', ''both'')]"

definition buttonContainer :: "string \<Rightarrow> button_item list" where
  "buttonContainer senderEmail =
     map (\<lambda>(l, a). \<lparr>label = l, item_senderEmail = senderEmail, item_action = a\<rparr>) actions"

text \<open>The click listener of a menu item: stop the event, start the action, hide the menu;
  the rest of the action follows when the send has settled.\<close>

definition item_click :: "button_item \<Rightarrow> send_outcome \<Rightarrow> cs_effect list" where
  "item_click item outcome =
     [StopPropagation]
     @ handleAction_start (item_senderEmail item) (item_action item)
     @ [HideContainer]
     @ handleAction_settled (item_senderEmail item) (item_action item) outcome"

text \<open>
  The page as \<open>injectButtons\<close> sees it: the \<open>tr[role="row"]\<close> elements in document
  order and the menus appended to \<open>document.body\<close>. Of a row it reads the class list and
  the first \<open>td[data-thread-id] span[email]\<close> (its \<open>email\<close> attribute, \<open>None\<close> when there
  is no such element), and it inserts the trigger in front of the nodes that follow that
  element.
\<close>

datatype node = TriggerButton | OtherNode string

record email_row =
  classList :: "string list"
  senderCell :: "string option"
  after_senderCell :: "node list"

record page =
  emailRows :: "email_row list"
  body_menus :: "button_item list list"

definition classList_add :: "string \<Rightarrow> string list \<Rightarrow> string list" where
  "classList_add c cs = (if c \<in> set cs then cs else cs @ [c])"

definition processed :: "email_row \<Rightarrow> bool" where
  "processed row = (''unclut-processed'' \<in> set (classList row))"

text \<open>The body of the \<open>forEach\<close>: the row afterwards, and the menus appended to the body.\<close>

definition injectRow :: "email_row \<Rightarrow> email_row \<times> button_item list list" where
  "injectRow row =
     (if processed row then (row, [])
      else
        (case senderCell row of
           None \<Rightarrow> (row, [])
         | Some senderEmail \<Rightarrow>
             if \<not> truthy_str senderEmail then (row, [])
             else (row\<lparr>after_senderCell := TriggerButton # after_senderCell row,
                       classList := classList_add ''unclut-processed'' (classList row)\<rparr>,
                   [buttonContainer senderEmail])))"

text \<open>\<open>injectButtons\<close>: the rows selected by \<open>:not(.unclut-processed)\<close>, each run through
  the body of the loop; rows that are not selected stay as they are.\<close>

definition row_after :: "email_row \<Rightarrow> email_row" where
  "row_after row = (if processed row then row else fst (injectRow row))"

definition injectButtons :: "page \<Rightarrow> page" where
  "injectButtons doc =
     \<lparr>emailRows = map row_after (emailRows doc),
      body_menus = body_menus doc
        @ concat (map (\<lambda>row. snd (injectRow row)) (filter (\<lambda>row. \<not> processed row) (emailRows doc)))\<rparr>"

definition triggers :: "email_row \<Rightarrow> nat" where
  "triggers row = length (filter (\<lambda>n. n = TriggerButton) (after_senderCell row))"

section \<open>contentScript.js: waiting for the Gmail container\<close>

text \<open>
  What the script reads of the page at one moment: the host name, whether the two
  selectors of \<open>isGmailReady\<close> match, and whether \<open>document.body\<close> is an element
  (\<open>hasBody\<close>) or null. \<open>selectorError\<close> stands for an exception inside the \<open>try\<close> block
  of \<open>isGmailReady\<close>, which the function answers with \<open>false\<close>. Its console output is left
  out.
\<close>

record gmail_view =
  hostname :: string
  hasMainContainer :: bool
  hasEmailList :: bool
  selectorError :: bool
  hasBody :: bool

definition isGmailReady :: "gmail_view \<Rightarrow> bool" where
  "isGmailReady v =
     (if selectorError v then False
      else if hostname v \<noteq> ''mail.google.com'' then False
      else hasMainContainer v \<and> hasEmailList v)"

datatype wait_effect =
    WaitLog string
  | WaitWarn string
  | Observe
  | StartTimer nat
  | Disconnect
  | ClearTimer
  | Resolve

datatype resolution = Immediately | OnMutation nat | OnTimeout

text \<open>How the promise settles: it resolves, on one of three paths, or it rejects with the
  \<open>TypeError\<close> that \<open>observer.observe\<close> throws when its target is not a node.\<close>

datatype settlement = Resolves resolution | RejectsTypeError

text \<open>
  The two local variables of the promise executor: is there an observer, is there a
  timer id.
\<close>

record waiter =
  observer :: bool
  timeoutId :: bool

definition cleanup :: "waiter \<Rightarrow> wait_effect list \<times> waiter" where
  "cleanup w =
     ((if observer w then [Disconnect] else []) @ (if timeoutId w then [ClearTimer] else []),
      \<lparr>observer = False, timeoutId = False\<rparr>)"

text \<open>
  The callbacks after the executor has returned. The list holds what the page looks like
  at each run of the mutation callback before the 10 second timer is due; \<open>i\<close> counts the
  runs so far. A run that finds Gmail ready cleans up and resolves, and no callback runs
  after that; when the list is used up the timer fires, cleans up and resolves.
\<close>

fun callbacks :: "waiter \<Rightarrow> nat \<Rightarrow> gmail_view list \<Rightarrow> wait_effect list \<times> waiter \<times> resolution" where
  "callbacks w i [] =
     (case cleanup w of (es, w') \<Rightarrow>
        ([WaitWarn ''[Unclut] Gmail container not found after timeout, checking anyway'']
           @ es @ [Resolve], w', OnTimeout))"
| "callbacks w i (v # vs) =
     (if isGmailReady v then
        (case cleanup w of (es, w') \<Rightarrow>
           ([WaitLog ''[Unclut] Gmail container detected via mutation observer'']
              @ es @ [Resolve], w', OnMutation i))
      else callbacks w (Suc i) vs)"

text \<open>
  \<open>waitForGmailContainer\<close>. When Gmail is ready at the call the executor resolves and
  returns. Otherwise it creates the observer and calls
  \<open>observer.observe(document.body, ...)\<close>. With \<open>document.body\<close> null that call throws;
  an exception in a promise executor rejects the promise, and the lines after it, the
  timer among them, do not run. With a body the observer is attached, the timer started,
  and the callbacks decide.
\<close>

definition waitForGmailContainer ::
  "gmail_view \<Rightarrow> gmail_view list \<Rightarrow> wait_effect list \<times> waiter \<times> settlement" where
  "waitForGmailContainer now mutations =
     (if isGmailReady now then
        ([WaitLog ''[Unclut] Gmail container found immediately'', Resolve],
         \<lparr>observer = False, timeoutId = False\<rparr>, Resolves Immediately)
      else if \<not> hasBody now then
        ([WaitLog ''[Unclut] Waiting for Gmail container...''],
         \<lparr>observer = True, timeoutId = False\<rparr>, RejectsTypeError)
      else
        (case callbacks \<lparr>observer = True, timeoutId = True\<rparr> 0 mutations of (es, w, r) \<Rightarrow>
           ([WaitLog ''[Unclut] Waiting for Gmail container...'', Observe, StartTimer 10000] @ es,
            w, Resolves r)))"

section \<open>popup.js\<close>

definition DEFAULT_SETTINGS :: js_object where
  "DEFAULT_SETTINGS =
     [(''defaultAction'', JStr ''both''), (''maxEmails'', JNum 100),
      (''showConfirmation'', JBool True), (''theme'', JStr ''light'')]"

text \<open>
  A JavaScript number as \<open>parseInt\<close> can return it: \<open>NaN\<close>, a double whose value is an
  integer, or an infinity. The two zeros are one value here; both are falsy.
\<close>

datatype js_number = NaN | Finite int | PosInfinity | NegInfinity

text \<open>
  The double nearest to a natural number, ties to the even significand; \<open>None\<close> when the
  number rounds beyond the largest double, that is to \<open>Infinity\<close>. Below \<open>2 ^ 53\<close> every
  natural number is a double. Above, the number keeps its 53 leading bits: \<open>e\<close> bits are cut
  off, \<open>q\<close> is what is kept and \<open>r\<close> what is cut.
\<close>

fun bit_length :: "nat \<Rightarrow> nat" where
  "bit_length n = (if n = 0 then 0 else Suc (bit_length (n div 2)))"

definition to_double :: "nat \<Rightarrow> nat option" where
  "to_double n =
     (if n < 2 ^ 53 then Some n
      else
        (let e = bit_length n - 53;
             q = n div 2 ^ e;
             r = n mod 2 ^ e;
             h = 2 ^ (e - 1);
             m = (if h < r \<or> (r = h \<and> odd q) then (q + 1) * 2 ^ e else q * 2 ^ e)
         in if m < 2 ^ 1024 then Some m else None))"

text \<open>
  \<open>parseInt(s, 10)\<close>: skip the leading white space, take an optional sign, then the
  longest run of decimal digits. No digit gives \<open>NaN\<close>; otherwise the result is the number
  the digits denote, with the sign, as a double. (Beyond twenty significant digits the
  language lets an implementation round less exactly; Chrome rounds correctly.)
\<close>

definition is_digit :: "char \<Rightarrow> bool" where
  "is_digit c = (c \<in> set ''0123456789'')"

definition digit_value :: "char \<Rightarrow> nat" where
  "digit_value c = of_char c - 48"

definition digits_value :: "string \<Rightarrow> nat" where
  "digits_value ds = foldl (\<lambda>a c. 10 * a + digit_value c) 0 ds"

definition parse_sign :: "string \<Rightarrow> bool \<times> string" where
  "parse_sign t =
     (case t of
        [] \<Rightarrow> (False, [])
      | c # cs \<Rightarrow> if c = CHR ''-'' then (True, cs)
                  else if c = CHR ''+'' then (False, cs)
                  else (False, t))"

definition digit_run :: "string \<Rightarrow> string" where
  "digit_run s = takeWhile is_digit (snd (parse_sign (skip_ws s)))"

definition parseInt10 :: "string \<Rightarrow> js_number" where
  "parseInt10 s =
     (let negative = fst (parse_sign (skip_ws s));
          z = digit_run s
      in if z = [] then NaN
         else
           (case to_double (digits_value z) of
              None \<Rightarrow> if negative then NegInfinity else PosInfinity
            | Some m \<Rightarrow> Finite (if negative then - int m else int m)))"

text \<open>\<open>x || 100\<close> on the result of \<open>parseInt\<close>: \<open>NaN\<close> and zero are falsy, every other
  number is kept.\<close>

definition or_100 :: "js_number \<Rightarrow> jsval" where
  "or_100 x =
     (case x of
        NaN \<Rightarrow> JNum 100
      | Finite n \<Rightarrow> if n = 0 then JNum 100 else JNum n
      | PosInfinity \<Rightarrow> JInfinity
      | NegInfinity \<Rightarrow> JNegInfinity)"

text \<open>
  \<open>loadSettings\<close>: the object the storage callback receives, and the values it assigns
  to the three form controls (a property that is missing reads as \<open>undefined\<close>, \<open>None\<close>).
\<close>

record form_assignment =
  actionTypeSelect_value :: "jsval option"
  maxEmailsInput_value :: "jsval option"
  showConfirmationCheckbox_checked :: "jsval option"

definition loadSettings :: "storage \<Rightarrow> js_object \<times> form_assignment" where
  "loadSettings st =
     (let settings = storage_get DEFAULT_SETTINGS st
      in (settings,
          \<lparr>actionTypeSelect_value = map_of settings ''defaultAction'',
           maxEmailsInput_value = map_of settings ''maxEmails'',
           showConfirmationCheckbox_checked = map_of settings ''showConfirmation''\<rparr>))"

text \<open>
  \<open>saveSettings\<close>: the object built from the form controls and the clock, which is then
  handed to \<open>chrome.storage.sync.set\<close>. The note "Settings saved!" that the callback
  shows for two seconds is left out.
\<close>

record form =
  actionTypeSelect :: string
  maxEmailsInput :: string
  showConfirmationCheckbox :: bool

definition saveSettings :: "form \<Rightarrow> string \<Rightarrow> js_object" where
  "saveSettings f now =
     [(''defaultAction'', JStr (actionTypeSelect f)),
      (''maxEmails'', or_100 (parseInt10 (maxEmailsInput f))),
      (''showConfirmation'', JBool (showConfirmationCheckbox f)),
      (''lastUpdated'', JStr now)]"

text \<open>The popup's event listeners, and what each asks of the browser.\<close>

datatype popup_event =
    DOMContentLoaded
  | ClickSaveButton
  | KeyPress string
  | ClickHelpLink
  | ClickManageAccountLink

datatype popup_effect =
    StorageGet js_object
  | StorageSet js_object
  | TabsCreate string
  | OpenOptionsPage

definition popup_listener :: "popup_event \<Rightarrow> form \<Rightarrow> string \<Rightarrow> popup_effect list" where
  "popup_listener ev f now =
     (case ev of
        DOMContentLoaded \<Rightarrow> [StorageGet DEFAULT_SETTINGS]
      | ClickSaveButton \<Rightarrow> [StorageSet (saveSettings f now)]
      | KeyPress key \<Rightarrow> if key = ''Enter'' then [StorageSet (saveSettings f now)] else []
      | ClickHelpLink \<Rightarrow> [TabsCreate ''https://github.com/yourusername/unclut-ai#readme'']
      | ClickManageAccountLink \<Rightarrow> [OpenOptionsPage])"

definition reads_storage :: "popup_effect list \<Rightarrow> bool" where
  "reads_storage es = list_ex (\<lambda>e. case e of StorageGet d \<Rightarrow> True | _ \<Rightarrow> False) es"

definition writes_storage :: "popup_effect list \<Rightarrow> bool" where
  "writes_storage es = list_ex (\<lambda>e. case e of StorageSet d \<Rightarrow> True | _ \<Rightarrow> False) es"

section \<open>Reading effect lists\<close>

text \<open>The messages sent, the toasts shown and the responses given, in order.\<close>

definition sent_messages :: "cs_effect list \<Rightarrow> request list" where
  "sent_messages es = concat (map (\<lambda>e. case e of SendMessage m \<Rightarrow> [m] | _ \<Rightarrow> []) es)"

definition toasts :: "cs_effect list \<Rightarrow> (string \<times> bool \<times> bool) list" where
  "toasts es = concat (map (\<lambda>e. case e of ShowToast m u s \<Rightarrow> [(m, u, s)] | _ \<Rightarrow> []) es)"

definition responses :: "bg_effect list \<Rightarrow> response list" where
  "responses es = concat (map (\<lambda>e. case e of SendResponse r \<Rightarrow> [r] | _ \<Rightarrow> []) es)"

definition timers :: "bg_effect list \<Rightarrow> nat list" where
  "timers es = concat (map (\<lambda>e. case e of SetTimeout ms \<Rightarrow> [ms] | _ \<Rightarrow> []) es)"

definition logs :: "bg_effect list \<Rightarrow> string list" where
  "logs es = concat (map (\<lambda>e. case e of ConsoleLog m \<Rightarrow> [m] | _ \<Rightarrow> []) es)"

section \<open>A message that reaches the background script\<close>

text \<open>
  The runtime hands the message of \<open>chrome.runtime.sendMessage\<close> to the background
  listener, and the send resolves with what the listener passed to \<open>sendResponse\<close>
  (with \<open>undefined\<close> when it passed nothing). The result is what the background script
  did and what the content script did.
\<close>

definition delivered_response :: "bg_effect list \<Rightarrow> response option" where
  "delivered_response es = (case responses es of [] \<Rightarrow> None | r # rs \<Rightarrow> Some r)"

definition round_trip ::
  "bg_state \<Rightarrow> browser \<Rightarrow> string \<Rightarrow> string \<Rightarrow> bg_effect list \<times> cs_effect list" where
  "round_trip state b senderEmail action =
     (case onMessage state b \<lparr>req_type = ''processAction'', req_senderEmail = senderEmail,
                               req_action = action\<rparr> of
        (state', es, answered) \<Rightarrow>
          (es, ext_handleAction senderEmail action (Resolved (delivered_response es))))"

section \<open>Sample inputs\<close>

definition fixed_clock :: "nat \<Rightarrow> string" where
  "fixed_clock i = ''2025-01-01T00:00:00.000Z''"

definition always_throws :: "nat \<Rightarrow> bool" where
  "always_throws k = True"

definition signed_out_browser :: browser where
  "signed_out_browser = \<lparr>authToken = None, userInfoResponse = NotOk, clock = fixed_clock\<rparr>"

definition refused_browser :: browser where
  "refused_browser = \<lparr>authToken = Some ''tok'', userInfoResponse = NotOk, clock = fixed_clock\<rparr>"

definition sample_page :: page where
  "sample_page =
     \<lparr>emailRows =
        [\<lparr>classList = [''zA'', ''unclut-processed''], senderCell = Some ''old@example.com'',
          after_senderCell = [TriggerButton, OtherNode ''span'']\<rparr>,
         \<lparr>classList = [''zA''], senderCell = None, after_senderCell = []\<rparr>,
         \<lparr>classList = [''zA''], senderCell = Some ''news@example.com'',
          after_senderCell = [OtherNode ''span'']\<rparr>],
      body_menus = [buttonContainer ''old@example.com'']\<rparr>"

definition processed_page :: page where
  "processed_page =
     \<lparr>emailRows =
        [\<lparr>classList = [''zA'', ''unclut-processed''], senderCell = Some ''old@example.com'',
          after_senderCell = [TriggerButton, OtherNode ''span'']\<rparr>],
      body_menus = [buttonContainer ''old@example.com'']\<rparr>"

definition gmail_loading :: gmail_view where
  "gmail_loading =
     \<lparr>hostname = ''mail.google.com'', hasMainContainer = False, hasEmailList = False,
      selectorError = False, hasBody = True\<rparr>"

definition gmail_no_body :: gmail_view where
  "gmail_no_body =
     \<lparr>hostname = ''mail.google.com'', hasMainContainer = False, hasEmailList = False,
      selectorError = False, hasBody = False\<rparr>"

definition gmail_loaded :: gmail_view where
  "gmail_loaded =
     \<lparr>hostname = ''mail.google.com'', hasMainContainer = True, hasEmailList = True,
      selectorError = False, hasBody = True\<rparr>"

definition sample_storage :: storage where
  "sample_storage = [''maxEmails'' \<mapsto> JNum 25, ''theme'' \<mapsto> JStr ''dark'']"

definition sample_form :: form where
  "sample_form =
     \<lparr>actionTypeSelect = ''delete'', maxEmailsInput = ''abc'', showConfirmationCheckbox = False\<rparr>"

section \<open>Properties of gmailUtils.js\<close>

lemma or_else_nonempty: "b \<noteq> [] \<Longrightarrow> or_else a b \<noteq> []"
  by (simp add: or_else_def truthy_str_def split: option.splits)

lemma skip_ws_blank: "\<forall>c \<in> set s. is_ws c \<Longrightarrow> skip_ws s = []"
  by (induction s rule: skip_ws.induct) simp_all

lemma trim_blank: "\<forall>c \<in> set s. is_ws c \<Longrightarrow> trim s = []"
  by (simp add: trim_def skip_ws_blank)

text \<open>
  Where the display name comes out empty: only on the first branch, when the name
  element's text is not empty and trimming leaves nothing of it.
\<close>

lemma getSenderDisplayName_empty_iff:
  "getSenderDisplayName row = [] \<longleftrightarrow>
     (\<exists>e. querySelector_attr ''name'' row = Some e \<and> textContent e \<noteq> []
          \<and> trim (textContent e) = [])"
  by (auto simp: getSenderDisplayName_def truthy_str_def or_else_nonempty
           split: option.splits)

text \<open>
  C10. The claim: \<open>getSenderDisplayName\<close> never returns null or an empty result.
  The code tests the name element's text for emptiness before trimming it, so a name
  element whose text is two blanks passes the test and is trimmed to the empty string:
  on that row the function returns the empty string, although the row carries the
  sender's address and the fallback would have produced it.
\<close>

theorem getSenderDisplayName_blank_name:
  "getSenderDisplayName
     [\<lparr>attrs = [(''name'', ''Ann''), (''email'', ''ann@example.com'')], textContent = ''  ''\<rparr>]
   = ''''"
  by (simp add: getSenderDisplayName_def querySelector_attr_def hasAttribute_def
                truthy_str_def trim_def is_ws_def)

section \<open>Properties of the initialization retry loop\<close>

declare attempts.simps [simp del]

lemma attempts_success: "\<not> throws k \<Longrightarrow> attempts throws k this = []"
  by (subst attempts.simps) (simp add: init_def)

lemma attempts_ceiling: "maxRetries this \<le> retryCount this \<Longrightarrow> attempts throws k this = []"
  by (subst attempts.simps) (simp add: init_def retryInitialization_def)

lemma attempts_retry:
  "\<not> initialized this \<Longrightarrow> throws k \<Longrightarrow> retryCount this < maxRetries this \<Longrightarrow>
   attempts throws k this =
     backoff_delay (Suc (retryCount this))
       # attempts throws (Suc k) (this\<lparr>retryCount := Suc (retryCount this)\<rparr>)"
  by (subst attempts.simps) (simp add: init_def retryInitialization_def Let_def)

lemma attempts_shape:
  "\<not> initialized this \<Longrightarrow> retryCount this \<le> maxRetries this \<Longrightarrow>
   \<exists>n. retryCount this + n \<le> maxRetries this
     \<and> attempts throws k this
         = map backoff_delay [Suc (retryCount this) ..< Suc (retryCount this + n)]
     \<and> (\<forall>j<n. throws (k + j))
     \<and> (retryCount this + n < maxRetries this \<longrightarrow> \<not> throws (k + n))"
proof (induction "maxRetries this - retryCount this" arbitrary: this k)
  case 0
  then have "attempts throws k this = []" by (simp add: attempts_ceiling)
  with 0 show ?case by (intro exI[of _ 0]) simp
next
  case (Suc d)
  show ?case
  proof (cases "throws k")
    case False
    then have "attempts throws k this = []" by (simp add: attempts_success)
    with False Suc.prems show ?thesis by (intro exI[of _ 0]) simp
  next
    case True
    let ?this' = "this\<lparr>retryCount := Suc (retryCount this)\<rparr>"
    from Suc.hyps(2) have lt: "retryCount this < maxRetries this" by simp
    have step: "attempts throws k this
                  = backoff_delay (Suc (retryCount this)) # attempts throws (Suc k) ?this'"
      using Suc.prems(1) True lt by (rule attempts_retry)
    have "d = maxRetries ?this' - retryCount ?this'" using Suc.hyps(2) by simp
    moreover have "\<not> initialized ?this'" using Suc.prems(1) by simp
    moreover have "retryCount ?this' \<le> maxRetries ?this'" using lt by simp
    ultimately obtain n where n:
      "retryCount ?this' + n \<le> maxRetries ?this'"
      "attempts throws (Suc k) ?this'
         = map backoff_delay [Suc (retryCount ?this') ..< Suc (retryCount ?this' + n)]"
      "\<forall>j<n. throws (Suc k + j)"
      "retryCount ?this' + n < maxRetries ?this' \<longrightarrow> \<not> throws (Suc k + n)"
      using Suc.hyps(1)[of ?this' "Suc k"] by blast
    have "retryCount this + Suc n \<le> maxRetries this" using n(1) by simp
    moreover have "attempts throws k this
         = map backoff_delay [Suc (retryCount this) ..< Suc (retryCount this + Suc n)]"
    proof -
      have "[Suc (retryCount this) ..< Suc (retryCount this + Suc n)]
              = Suc (retryCount this) # [Suc (Suc (retryCount this)) ..< Suc (Suc (retryCount this) + n)]"
        by (simp add: upt_conv_Cons del: upt_Suc)
      then show ?thesis using step n(2) by (simp del: upt_Suc)
    qed
    moreover have "\<forall>j<Suc n. throws (k + j)"
    proof (intro allI impI)
      fix j assume "j < Suc n"
      then show "throws (k + j)" using True n(3) by (cases j) auto
    qed
    moreover have "retryCount this + Suc n < maxRetries this \<longrightarrow> \<not> throws (k + Suc n)"
      using n(4) by simp
    ultimately show ?thesis by blast
  qed
qed

text \<open>
  C1. Initialization retry is a bounded backoff loop. A call of \<open>retryInitialization\<close>
  schedules another attempt exactly when the retry count is below the ceiling 5, and the
  delay before retry number \<open>n\<close> (the count after the increment, the number the log
  line prints) is \<open>min (1000 * 2 ^ n) 30000\<close> milliseconds. Whatever the attempts do,
  the constructor's chain schedules \<open>n \<le> 5\<close> retries with the delays of retries
  \<open>1, \<dots>, n\<close>: the first \<open>n\<close> attempts failed, and either the ceiling is reached or
  attempt \<open>n\<close> succeeded. When every attempt fails, exactly five retries are scheduled,
  after 2, 4, 8, 16 and 30 seconds, and then none.
\<close>

theorem retry_bounded_backoff:
  "(\<forall>this. maxRetries this = 5 \<longrightarrow>
       snd (retryInitialization this)
         = (if retryCount this < 5 then Some (min (1000 * 2 ^ (retryCount this + 1)) 30000)
            else None))
   \<and> (\<exists>n\<le>5. construct throws = map (\<lambda>i. min (1000 * 2 ^ i) 30000) [1 ..< Suc n]
         \<and> (\<forall>k<n. throws k) \<and> (n < 5 \<longrightarrow> \<not> throws n))
   \<and> ((\<forall>k. throws k) \<longrightarrow> construct throws = [2000, 4000, 8000, 16000, 30000])"
proof (intro conjI)
  show "\<forall>this. maxRetries this = 5 \<longrightarrow>
       snd (retryInitialization this)
         = (if retryCount this < 5 then Some (min (1000 * 2 ^ (retryCount this + 1)) 30000)
            else None)"
    by (simp add: retryInitialization_def backoff_delay_def Let_def)
next
  have bd: "backoff_delay = (\<lambda>i. min (1000 * 2 ^ i) 30000)"
    by (rule ext) (simp add: backoff_delay_def)
  obtain n where n: "n \<le> 5" "construct throws = map backoff_delay [1 ..< Suc n]"
      "\<forall>k<n. throws k" "n < 5 \<longrightarrow> \<not> throws n"
    using attempts_shape[of new_extension throws 0]
    by (auto simp: construct_def new_extension_def)
  then show shape: "\<exists>n\<le>5. construct throws = map (\<lambda>i. min (1000 * 2 ^ i) 30000) [1 ..< Suc n]
         \<and> (\<forall>k<n. throws k) \<and> (n < 5 \<longrightarrow> \<not> throws n)"
    unfolding bd by blast
  show "(\<forall>k. throws k) \<longrightarrow> construct throws = [2000, 4000, 8000, 16000, 30000]"
  proof
    assume all: "\<forall>k. throws k"
    with n(4) n(1) have "n = 5" by auto
    then have "construct throws = map backoff_delay [1 ..< 6]" using n(2) by simp
    also have "[1 ..< 6] = [1, 2, 3, 4, 5 :: nat]" by (simp add: upt_rec)
    finally show "construct throws = [2000, 4000, 8000, 16000, 30000]"
      by (simp add: backoff_delay_def)
  qed
qed

text \<open>
  When every attempt fails: five retries, then none; at the ceiling nothing is scheduled,
  and the last retry below it waits the capped 30 seconds.
\<close>

theorem retry_bounded_backoff_witness:
  "construct always_throws = [2000, 4000, 8000, 16000, 30000]
   \<and> snd (retryInitialization \<lparr>initialized = False, retryCount = 5, maxRetries = 5\<rparr>) = None
   \<and> snd (retryInitialization \<lparr>initialized = False, retryCount = 4, maxRetries = 5\<rparr>) = Some 30000"
  using retry_bounded_backoff [of always_throws]
  by (auto simp: always_throws_def)

section \<open>Properties of background.js and actions.js\<close>

lemmas promise_defs = await_def try_catch_def resolve_def throw_def effect_def sleep_def
  promise_all_def

lemma processUnsubscribe_eq:
  "processUnsubscribe senderEmail now =
     ([ConsoleLog (''Attempting to unsubscribe from '' @ senderEmail), SetTimeout 1000],
      Inr \<lparr>success = True, message = ''Successfully unsubscribed from '' @ senderEmail,
           timestamp = Some now, count = None\<rparr>)"
  by (simp add: processUnsubscribe_def promise_defs)

lemma processDelete_eq:
  "processDelete senderEmail now =
     ([ConsoleLog (''Attempting to delete emails from '' @ senderEmail), SetTimeout 1000],
      Inr \<lparr>success = True, message = ''Successfully deleted emails from '' @ senderEmail,
           timestamp = Some now, count = Some 42\<rparr>)"
  by (simp add: processDelete_def promise_defs)

text \<open>
  C2. The unsubscribe and delete actions are placeholder stubs. For every sender address,
  \<open>processUnsubscribe\<close> logs, starts one timer of 1000 ms and resolves with an object
  whose \<open>success\<close> is true and whose message names the sender; \<open>processDelete\<close> does the
  same and resolves with \<open>success\<close> true and the count 42. Their effects hold no request
  to a web API, and neither rejects.
\<close>

theorem stubs_resolve_with_canned_success:
  "processUnsubscribe senderEmail now =
     ([ConsoleLog (''Attempting to unsubscribe from '' @ senderEmail), SetTimeout 1000],
      Inr \<lparr>success = True, message = ''Successfully unsubscribed from '' @ senderEmail,
           timestamp = Some now, count = None\<rparr>)
   \<and> processDelete senderEmail now =
     ([ConsoleLog (''Attempting to delete emails from '' @ senderEmail), SetTimeout 1000],
      Inr \<lparr>success = True, message = ''Successfully deleted emails from '' @ senderEmail,
           timestamp = Some now, count = Some 42\<rparr>)"
  by (simp add: processUnsubscribe_eq processDelete_eq)

lemma ensureAuthenticated_resolves_iff:
  "(\<exists>v. snd (snd (ensureAuthenticated state b)) = Inr v) \<longleftrightarrow>
     isAuthenticated state \<or> (\<exists>token u. authToken b = Some token \<and> userInfoResponse b = OkJson u)"
  by (cases "userInfoResponse b")
     (auto simp: ensureAuthenticated_def fetchUserInfo_def promise_defs split: option.splits)

lemma handleAction_both_eq:
  assumes "snd (snd (ensureAuthenticated state b)) = Inr v"
  shows "snd (handleAction state b senderEmail ''both'') =
     ([ConsoleLog (''Processing both for '' @ senderEmail)]
        @ fst (snd (ensureAuthenticated state b))
        @ fst (processUnsubscribe senderEmail (clock b 0))
        @ fst (processDelete senderEmail (clock b 1)),
      Inr (Both \<lparr>unsubResult =
                    \<lparr>success = True, message = ''Successfully unsubscribed from '' @ senderEmail,
                     timestamp = Some (clock b 0), count = None\<rparr>,
                 deleteResult =
                    \<lparr>success = True, message = ''Successfully deleted emails from '' @ senderEmail,
                     timestamp = Some (clock b 1), count = Some 42\<rparr>\<rparr>))"
proof -
  obtain st es where ea: "ensureAuthenticated state b = (st, es, Inr v)"
    using assms by (metis prod.collapse)
  show ?thesis
    by (simp add: handleAction_def ea processUnsubscribe_eq processDelete_eq promise_defs)
qed

lemma ensureAuthenticated_settles:
  "snd (snd (ensureAuthenticated state b)) = Inr True
   \<or> snd (snd (ensureAuthenticated state b))
       = Inl (Error ''Authentication required. Please sign in to continue.'')"
  by (cases "userInfoResponse b")
     (auto simp: ensureAuthenticated_def fetchUserInfo_def promise_defs split: option.splits)

lemma ensureAuthenticated_quiet:
  "timers (fst (snd (ensureAuthenticated state b))) = []
   \<and> logs (fst (snd (ensureAuthenticated state b))) = []"
  by (cases "userInfoResponse b")
     (auto simp: ensureAuthenticated_def fetchUserInfo_def promise_defs timers_def logs_def
           split: option.splits)

lemma handleAction_rejected_eq:
  assumes "snd (snd (ensureAuthenticated state b)) = Inl e"
  shows "snd (handleAction state b senderEmail action) =
     ([ConsoleLog (''Processing '' @ action @ '' for '' @ senderEmail)]
        @ fst (snd (ensureAuthenticated state b))
        @ [ConsoleError ''Error processing action:'' e],
      Inl e)"
proof -
  obtain st es where ea: "ensureAuthenticated state b = (st, es, Inl e)"
    using assms by (metis prod.collapse)
  show ?thesis
    by (simp add: handleAction_def ea promise_defs)
qed

text \<open>
  C4, as amended. When authentication succeeds (the promise of \<open>ensureAuthenticated\<close>
  resolves), \<open>handleAction\<close> with the action \<open>'both'\<close> makes exactly the two stub calls,
  \<open>processUnsubscribe\<close> and then \<open>processDelete\<close> on that sender, and resolves with an
  object holding both results. When \<open>ensureAuthenticated\<close> rejects, \<open>handleAction\<close> calls
  neither stub, logs the error and rejects with it: after its own log line come the
  effects of the failed authentication and the error log, with no timer started and no
  further log line. Authentication settles in one of these two ways.
  \<open>unsubscribeAndDelete\<close> resolves with the combination of its two sub-results, which
  keeps both and whose \<open>success\<close> is true exactly when both sub-results have \<open>success\<close> true.
\<close>

theorem handleAction_both_joins_stubs:
  "(snd (snd (ensureAuthenticated state b)) = Inr True \<longrightarrow>
     (\<exists>u d. snd (processUnsubscribe senderEmail (clock b 0)) = Inr u
          \<and> snd (processDelete senderEmail (clock b 1)) = Inr d
          \<and> snd (handleAction state b senderEmail ''both'') =
              ([ConsoleLog (''Processing both for '' @ senderEmail)]
                 @ fst (snd (ensureAuthenticated state b))
                 @ fst (processUnsubscribe senderEmail (clock b 0))
                 @ fst (processDelete senderEmail (clock b 1)),
               Inr (Both \<lparr>unsubResult = u, deleteResult = d\<rparr>))))
   \<and> (snd (snd (ensureAuthenticated state b)) = Inl e \<longrightarrow>
        snd (handleAction state b senderEmail ''both'') =
          ([ConsoleLog (''Processing both for '' @ senderEmail)]
             @ fst (snd (ensureAuthenticated state b))
             @ [ConsoleError ''Error processing action:'' e],
           Inl e)
        \<and> timers (fst (snd (handleAction state b senderEmail ''both''))) = []
        \<and> logs (fst (snd (handleAction state b senderEmail ''both'')))
            = [''Processing both for '' @ senderEmail])
   \<and> (snd (snd (ensureAuthenticated state b)) = Inr True
        \<or> snd (snd (ensureAuthenticated state b))
            = Inl (Error ''Authentication required. Please sign in to continue.''))
   \<and> (\<exists>u d. snd (unsubscribe senderEmail) = Inr u \<and> snd (deleteEmails senderEmail) = Inr d
          \<and> snd (unsubscribeAndDelete senderEmail) = Inr (combine u d))
   \<and> unsubResult (combine u' d') = u' \<and> deleteResult (combine u' d') = d'
   \<and> (combined_success (combine u' d') \<longleftrightarrow> success u' \<and> success d')"
proof -
  have ok: "snd (snd (ensureAuthenticated state b)) = Inr True \<longrightarrow>
     (\<exists>u d. snd (processUnsubscribe senderEmail (clock b 0)) = Inr u
          \<and> snd (processDelete senderEmail (clock b 1)) = Inr d
          \<and> snd (handleAction state b senderEmail ''both'') =
              ([ConsoleLog (''Processing both for '' @ senderEmail)]
                 @ fst (snd (ensureAuthenticated state b))
                 @ fst (processUnsubscribe senderEmail (clock b 0))
                 @ fst (processDelete senderEmail (clock b 1)),
               Inr (Both \<lparr>unsubResult = u, deleteResult = d\<rparr>)))"
  proof
    assume a: "snd (snd (ensureAuthenticated state b)) = Inr True"
    show "\<exists>u d. snd (processUnsubscribe senderEmail (clock b 0)) = Inr u
          \<and> snd (processDelete senderEmail (clock b 1)) = Inr d
          \<and> snd (handleAction state b senderEmail ''both'') =
              ([ConsoleLog (''Processing both for '' @ senderEmail)]
                 @ fst (snd (ensureAuthenticated state b))
                 @ fst (processUnsubscribe senderEmail (clock b 0))
                 @ fst (processDelete senderEmail (clock b 1)),
               Inr (Both \<lparr>unsubResult = u, deleteResult = d\<rparr>))"
      using handleAction_both_eq[OF a, of senderEmail]
      by (simp add: processUnsubscribe_eq processDelete_eq)
  qed
  have rej: "snd (snd (ensureAuthenticated state b)) = Inl e \<longrightarrow>
        snd (handleAction state b senderEmail ''both'') =
          ([ConsoleLog (''Processing both for '' @ senderEmail)]
             @ fst (snd (ensureAuthenticated state b))
             @ [ConsoleError ''Error processing action:'' e],
           Inl e)
        \<and> timers (fst (snd (handleAction state b senderEmail ''both''))) = []
        \<and> logs (fst (snd (handleAction state b senderEmail ''both'')))
            = [''Processing both for '' @ senderEmail]"
  proof
    assume a: "snd (snd (ensureAuthenticated state b)) = Inl e"
    have h: "snd (handleAction state b senderEmail ''both'') =
          ([ConsoleLog (''Processing both for '' @ senderEmail)]
             @ fst (snd (ensureAuthenticated state b))
             @ [ConsoleError ''Error processing action:'' e],
           Inl e)"
      using handleAction_rejected_eq[OF a, of senderEmail "''both''"] by simp
    have q: "timers (fst (snd (ensureAuthenticated state b))) = []"
      "logs (fst (snd (ensureAuthenticated state b))) = []"
      using ensureAuthenticated_quiet[of state b] by simp_all
    have t: "timers (fst (snd (handleAction state b senderEmail ''both''))) = []"
      using q(1) by (simp add: h timers_def)
    have l: "logs (fst (snd (handleAction state b senderEmail ''both'')))
               = [''Processing both for '' @ senderEmail]"
      using q(2) by (simp add: h logs_def)
    from h t l show "snd (handleAction state b senderEmail ''both'') =
          ([ConsoleLog (''Processing both for '' @ senderEmail)]
             @ fst (snd (ensureAuthenticated state b))
             @ [ConsoleError ''Error processing action:'' e],
           Inl e)
        \<and> timers (fst (snd (handleAction state b senderEmail ''both''))) = []
        \<and> logs (fst (snd (handleAction state b senderEmail ''both'')))
            = [''Processing both for '' @ senderEmail]"
      by (intro conjI)
  qed
  have comb: "\<exists>u d. snd (unsubscribe senderEmail) = Inr u \<and> snd (deleteEmails senderEmail) = Inr d
          \<and> snd (unsubscribeAndDelete senderEmail) = Inr (combine u d)"
    by (simp add: unsubscribe_def deleteEmails_def unsubscribeAndDelete_def promise_defs)
  have c1: "unsubResult (combine u' d') = u'" and c2: "deleteResult (combine u' d') = d'"
    and c3: "combined_success (combine u' d') \<longleftrightarrow> success u' \<and> success d'"
    by (simp_all add: combine_def)
  from ok rej ensureAuthenticated_settles[of state b] comb c1 c2 c3
  show ?thesis by (intro conjI)
qed

text \<open>
  The amended claim at a signed-in state, and at a signed-out state whose token is
  delivered but whose user-info request is answered "not ok".
\<close>

theorem handleAction_both_joins_stubs_witness:
  "snd (handleAction (initial_state\<lparr>isAuthenticated := True\<rparr>) signed_out_browser
          ''news@example.com'' ''both'')
     = ([ConsoleLog ''Processing both for news@example.com'',
         ConsoleLog ''Attempting to unsubscribe from news@example.com'', SetTimeout 1000,
         ConsoleLog ''Attempting to delete emails from news@example.com'', SetTimeout 1000],
        Inr (Both \<lparr>unsubResult =
                      \<lparr>success = True, message = ''Successfully unsubscribed from news@example.com'',
                       timestamp = Some ''2025-01-01T00:00:00.000Z'', count = None\<rparr>,
                   deleteResult =
                      \<lparr>success = True, message = ''Successfully deleted emails from news@example.com'',
                       timestamp = Some ''2025-01-01T00:00:00.000Z'', count = Some 42\<rparr>\<rparr>))
   \<and> snd (handleAction initial_state refused_browser ''news@example.com'' ''both'')
     = ([ConsoleLog ''Processing both for news@example.com'',
         GetAuthToken True,
         Fetch ''https://www.googleapis.com/oauth2/v2/userinfo'' ''Bearer tok'',
         ConsoleError ''Authentication failed:'' (Error ''Failed to fetch user info''),
         ConsoleError ''Error processing action:''
           (Error ''Authentication required. Please sign in to continue.'')],
        Inl (Error ''Authentication required. Please sign in to continue.''))"
proof -
  let ?st = "initial_state\<lparr>isAuthenticated := True\<rparr>"
  let ?err = "Error ''Authentication required. Please sign in to continue.''"
  have ea: "ensureAuthenticated ?st signed_out_browser = (?st, [], Inr True)"
    by (simp add: ensureAuthenticated_def initial_state_def resolve_def)
  then have a: "snd (snd (ensureAuthenticated ?st signed_out_browser)) = Inr True" by simp
  have ck: "clock signed_out_browser = fixed_clock" by (simp add: signed_out_browser_def)
  have 1: "snd (handleAction ?st signed_out_browser ''news@example.com'' ''both'')
     = ([ConsoleLog ''Processing both for news@example.com'',
         ConsoleLog ''Attempting to unsubscribe from news@example.com'', SetTimeout 1000,
         ConsoleLog ''Attempting to delete emails from news@example.com'', SetTimeout 1000],
        Inr (Both \<lparr>unsubResult =
                      \<lparr>success = True, message = ''Successfully unsubscribed from news@example.com'',
                       timestamp = Some ''2025-01-01T00:00:00.000Z'', count = None\<rparr>,
                   deleteResult =
                      \<lparr>success = True, message = ''Successfully deleted emails from news@example.com'',
                       timestamp = Some ''2025-01-01T00:00:00.000Z'', count = Some 42\<rparr>\<rparr>))"
    using handleAction_both_joins_stubs
            [where state = ?st and b = signed_out_browser and senderEmail = "''news@example.com''",
             THEN conjunct1, THEN mp, OF a]
    by (simp add: ea ck processUnsubscribe_eq processDelete_eq fixed_clock_def)
  have eb: "ensureAuthenticated initial_state refused_browser
      = (initial_state,
         [GetAuthToken True,
          Fetch ''https://www.googleapis.com/oauth2/v2/userinfo'' ''Bearer tok'',
          ConsoleError ''Authentication failed:'' (Error ''Failed to fetch user info'')],
         Inl ?err)"
    by (simp add: ensureAuthenticated_def fetchUserInfo_def initial_state_def
          refused_browser_def promise_defs)
  then have b: "snd (snd (ensureAuthenticated initial_state refused_browser)) = Inl ?err"
    by simp
  have 2: "snd (handleAction initial_state refused_browser ''news@example.com'' ''both'')
     = ([ConsoleLog (''Processing both for '' @ ''news@example.com'')]
          @ fst (snd (ensureAuthenticated initial_state refused_browser))
          @ [ConsoleError ''Error processing action:'' ?err],
        Inl ?err)"
    using handleAction_both_joins_stubs
            [where state = initial_state and b = refused_browser
               and senderEmail = "''news@example.com''" and e = ?err,
             THEN conjunct2, THEN conjunct1, THEN mp, OF b]
    by (rule conjunct1)
  show ?thesis
    unfolding 1 2 by (simp add: eb)
qed

text \<open>
  C4 as stated fails where authentication fails: from the initial, signed-out state, with
  no token delivered, \<open>handleAction\<close> with \<open>'both'\<close> calls neither stub (no timer is
  started) and rejects.
\<close>

theorem handleAction_both_unauthenticated:
  "snd (handleAction initial_state
          \<lparr>authToken = None, userInfoResponse = NotOk, clock = fixed_clock\<rparr>
          ''news@example.com'' ''both'')
     = ([ConsoleLog ''Processing both for news@example.com'',
         GetAuthToken True,
         ConsoleError ''Authentication failed:'' (Error ''[object Object]''),
         ConsoleError ''Error processing action:''
           (Error ''Authentication required. Please sign in to continue.'')],
        Inl (Error ''Authentication required. Please sign in to continue.''))"
  by (simp add: handleAction_def ensureAuthenticated_def initial_state_def promise_defs)

section \<open>Properties of action handling in the content script\<close>

lemma handleAction_rejection:
  assumes "snd (snd (handleAction state b senderEmail action)) = Inl err"
  shows "\<exists>es. fst (snd (handleAction state b senderEmail action))
                 = es @ [ConsoleError ''Error processing action:'' err]
              \<and> responses es = []"
  using assms
  by (cases "userInfoResponse b")
     (auto simp: handleAction_def ensureAuthenticated_def fetchUserInfo_def processUnsubscribe_def
        processDelete_def promise_defs responses_def split: option.splits if_splits)

lemma onMessage_rejection:
  assumes t: "req_type r = ''processAction''"
    and a: "snd (snd (handleAction state b (req_senderEmail r) (req_action r))) = Inl err"
  shows "onMessage state b r =
            (fst (handleAction state b (req_senderEmail r) (req_action r)),
             fst (snd (handleAction state b (req_senderEmail r) (req_action r)))
               @ [SendResponse (Failure (error_message err))],
             True)
          \<and> fst (snd (handleAction state b (req_senderEmail r) (req_action r)))
              = butlast (fst (snd (handleAction state b (req_senderEmail r) (req_action r))))
                @ [ConsoleError ''Error processing action:'' err]
          \<and> responses (fst (snd (handleAction state b (req_senderEmail r) (req_action r)))) = []"
proof -
  let ?h = "handleAction state b (req_senderEmail r) (req_action r)"
  from a obtain es where es:
    "fst (snd ?h) = es @ [ConsoleError ''Error processing action:'' err]" "responses es = []"
    using handleAction_rejection by blast
  have h: "?h = (fst ?h, fst (snd ?h), Inl err)"
    using a by (metis prod.collapse)
  have 1: "onMessage state b r =
          (fst ?h, fst (snd ?h) @ [SendResponse (Failure (error_message err))], True)"
    using t by (subst onMessage_def, subst h) simp
  have 2: "fst (snd ?h) = butlast (fst (snd ?h)) @ [ConsoleError ''Error processing action:'' err]"
    by (simp add: es(1))
  have 3: "responses (fst (snd ?h)) = []"
    using es(2) by (simp add: es(1) responses_def)
  from 1 2 3 show ?thesis by blast
qed

text \<open>
  What the two scripts do with an error, each on its own. In the content script, when the
  \<open>processAction\<close> send fails, the error goes to \<open>console.error\<close> and the failure toast is
  shown, and nothing follows: the message is sent once, whatever the outcome. In the
  background script, when \<open>handleAction\<close> rejects with an error, the listener's last act
  before answering was to log that error, and it answers once, with \<open>success: false\<close> and
  the error's message.
\<close>

lemma send_failure_and_listener_reply:
  "ext_handleAction senderEmail action (Rejected error) =
     [CsLog (''Action: '' @ action @ '' for '' @ senderEmail),
      ShowToast (''Processing '' @ action @ '' for '' @ senderEmail @ ''...'') True True,
      SendMessage \<lparr>req_type = ''processAction'', req_senderEmail = senderEmail,
                   req_action = action\<rparr>,
      CsError ''Error processing action:'' error,
      ShowToast (''Failed to process '' @ action @ '' for '' @ senderEmail) False False]
   \<and> length (sent_messages (ext_handleAction senderEmail action outcome)) = 1
   \<and> (req_type r = ''processAction''
        \<and> snd (snd (handleAction state b (req_senderEmail r) (req_action r))) = Inl err
      \<longrightarrow> onMessage state b r =
            (fst (handleAction state b (req_senderEmail r) (req_action r)),
             fst (snd (handleAction state b (req_senderEmail r) (req_action r)))
               @ [SendResponse (Failure (error_message err))],
             True)
          \<and> fst (snd (handleAction state b (req_senderEmail r) (req_action r)))
              = butlast (fst (snd (handleAction state b (req_senderEmail r) (req_action r))))
                @ [ConsoleError ''Error processing action:'' err]
          \<and> responses (fst (snd (handleAction state b (req_senderEmail r) (req_action r)))) = [])"
proof (intro conjI)
  show "ext_handleAction senderEmail action (Rejected error) =
     [CsLog (''Action: '' @ action @ '' for '' @ senderEmail),
      ShowToast (''Processing '' @ action @ '' for '' @ senderEmail @ ''...'') True True,
      SendMessage \<lparr>req_type = ''processAction'', req_senderEmail = senderEmail,
                   req_action = action\<rparr>,
      CsError ''Error processing action:'' error,
      ShowToast (''Failed to process '' @ action @ '' for '' @ senderEmail) False False]"
    by (simp add: ext_handleAction_def handleAction_start_def handleAction_settled_def
          showToast_def)
next
  show "length (sent_messages (ext_handleAction senderEmail action outcome)) = 1"
    by (cases outcome)
       (simp_all add: ext_handleAction_def handleAction_start_def handleAction_settled_def
          showToast_def sent_messages_def)
next
  show "req_type r = ''processAction''
        \<and> snd (snd (handleAction state b (req_senderEmail r) (req_action r))) = Inl err
      \<longrightarrow> onMessage state b r =
            (fst (handleAction state b (req_senderEmail r) (req_action r)),
             fst (snd (handleAction state b (req_senderEmail r) (req_action r)))
               @ [SendResponse (Failure (error_message err))],
             True)
          \<and> fst (snd (handleAction state b (req_senderEmail r) (req_action r)))
              = butlast (fst (snd (handleAction state b (req_senderEmail r) (req_action r))))
                @ [ConsoleError ''Error processing action:'' err]
          \<and> responses (fst (snd (handleAction state b (req_senderEmail r) (req_action r)))) = []"
    using onMessage_rejection [of r state b err] by blast
qed

text \<open>
  The content script does not read the response. When the background script answers
  \<open>success: false\<close>, the send has resolved, and the toast shown is the success toast.
\<close>

lemma failure_reply_shows_success_toast:
  "toasts (ext_handleAction senderEmail action (Resolved (Some (Failure m)))) =
     [(''Processing '' @ action @ '' for '' @ senderEmail @ ''...'', True, True),
      (''Successfully processed '' @ action @ '' for '' @ senderEmail, False, True)]"
  by (simp add: ext_handleAction_def handleAction_start_def handleAction_settled_def
        showToast_def toasts_def)

lemma rejected_round_trip:
  assumes "snd (snd (handleAction state b senderEmail action)) = Inl err"
  shows "toasts (snd (round_trip state b senderEmail action)) =
     [(''Processing '' @ action @ '' for '' @ senderEmail @ ''...'', True, True),
      (''Successfully processed '' @ action @ '' for '' @ senderEmail, False, True)]"
proof -
  obtain st es r where o:
    "onMessage state b \<lparr>req_type = ''processAction'', req_senderEmail = senderEmail,
                        req_action = action\<rparr> = (st, es, r)"
    by (metis prod.collapse)
  show ?thesis
    by (cases "delivered_response es")
       (simp_all add: round_trip_def o ext_handleAction_def handleAction_start_def
          handleAction_settled_def showToast_def toasts_def)
qed

text \<open>
  C5. The claim: every error in action processing is logged to the console and surfaced
  as a generic toast. An error inside the background script is logged there and answered
  with \<open>success: false\<close>, but the content script assigns the response and never reads it:
  the send has resolved, so the \<open>catch\<close> block with the failure toast is not entered and
  the success toast is shown. Here the user is signed out and no token is delivered; the
  click on "Unsubscribe + Delete" ends with the toast "Successfully processed both for
  news@example.com".
\<close>

theorem background_error_shown_as_success:
  "round_trip initial_state signed_out_browser ''news@example.com'' ''both'' =
     ([ConsoleLog ''Processing both for news@example.com'',
       GetAuthToken True,
       ConsoleError ''Authentication failed:'' (Error ''[object Object]''),
       ConsoleError ''Error processing action:''
         (Error ''Authentication required. Please sign in to continue.''),
       SendResponse (Failure ''Authentication required. Please sign in to continue.'')],
      [CsLog ''Action: both for news@example.com'',
       ShowToast ''Processing both for news@example.com...'' True True,
       SendMessage \<lparr>req_type = ''processAction'', req_senderEmail = ''news@example.com'',
                    req_action = ''both''\<rparr>,
       ShowToast ''Successfully processed both for news@example.com'' False True])"
  by (simp add: round_trip_def onMessage_def handleAction_def ensureAuthenticated_def
        initial_state_def signed_out_browser_def promise_defs error_message_def
        delivered_response_def responses_def ext_handleAction_def handleAction_start_def
        handleAction_settled_def showToast_def)

lemma buttonContainer_actions:
  "map item_action (buttonContainer senderEmail) = [''unsubscribe'', ''delete'', ''both'']
   \<and> map item_senderEmail (buttonContainer senderEmail) = [senderEmail, senderEmail, senderEmail]
   \<and> map label (buttonContainer senderEmail) = [''Unsubscribe'', ''Delete All'', ''Unsubscribe + Delete'']"
  by (simp add: buttonContainer_def actions_def)

text \<open>
  C7. For every sender address and every item of the menu built for it, the item's action
  is one of the three offered, and a click sends exactly one runtime message, of type
  \<open>processAction\<close> with that sender and that action. Two toasts are shown: the processing
  toast before the send, and, when the send has settled, the success toast if it resolved
  and the failure toast if it failed.
\<close>

theorem click_sends_processAction_and_toasts:
  "item \<in> set (buttonContainer senderEmail) \<longrightarrow>
     item_action item \<in> {''unsubscribe'', ''delete'', ''both''}
     \<and> sent_messages (item_click item outcome) =
         [\<lparr>req_type = ''processAction'', req_senderEmail = senderEmail,
           req_action = item_action item\<rparr>]
     \<and> toasts (item_click item outcome) =
         [(''Processing '' @ item_action item @ '' for '' @ senderEmail @ ''...'', True, True),
          (case outcome of
             Resolved response \<Rightarrow>
               (''Successfully processed '' @ item_action item @ '' for '' @ senderEmail, False, True)
           | Rejected error \<Rightarrow>
               (''Failed to process '' @ item_action item @ '' for '' @ senderEmail, False, False))]
     \<and> item_click item outcome =
         [StopPropagation,
          CsLog (''Action: '' @ item_action item @ '' for '' @ senderEmail),
          ShowToast (''Processing '' @ item_action item @ '' for '' @ senderEmail @ ''...'') True True,
          SendMessage \<lparr>req_type = ''processAction'', req_senderEmail = senderEmail,
                       req_action = item_action item\<rparr>,
          HideContainer]
         @ handleAction_settled senderEmail (item_action item) outcome"
proof
  assume "item \<in> set (buttonContainer senderEmail)"
  then have i: "item_senderEmail item = senderEmail"
      "item_action item \<in> {''unsubscribe'', ''delete'', ''both''}"
    by (auto simp: buttonContainer_def actions_def)
  show "item_action item \<in> {''unsubscribe'', ''delete'', ''both''}
     \<and> sent_messages (item_click item outcome) =
         [\<lparr>req_type = ''processAction'', req_senderEmail = senderEmail,
           req_action = item_action item\<rparr>]
     \<and> toasts (item_click item outcome) =
         [(''Processing '' @ item_action item @ '' for '' @ senderEmail @ ''...'', True, True),
          (case outcome of
             Resolved response \<Rightarrow>
               (''Successfully processed '' @ item_action item @ '' for '' @ senderEmail, False, True)
           | Rejected error \<Rightarrow>
               (''Failed to process '' @ item_action item @ '' for '' @ senderEmail, False, False))]
     \<and> item_click item outcome =
         [StopPropagation,
          CsLog (''Action: '' @ item_action item @ '' for '' @ senderEmail),
          ShowToast (''Processing '' @ item_action item @ '' for '' @ senderEmail @ ''...'') True True,
          SendMessage \<lparr>req_type = ''processAction'', req_senderEmail = senderEmail,
                       req_action = item_action item\<rparr>,
          HideContainer]
         @ handleAction_settled senderEmail (item_action item) outcome"
    using i(2)
    by (cases outcome)
       (simp_all add: i(1) item_click_def handleAction_start_def handleAction_settled_def
          showToast_def sent_messages_def toasts_def)
qed

text \<open>
  A click on the second item of a menu whose send resolves.
\<close>

theorem click_sends_processAction_and_toasts_witness:
  "sent_messages
     (item_click \<lparr>label = ''Delete All'', item_senderEmail = ''news@example.com'',
                  item_action = ''delete''\<rparr> (Resolved None))
     = [\<lparr>req_type = ''processAction'', req_senderEmail = ''news@example.com'',
         req_action = ''delete''\<rparr>]
   \<and> toasts
     (item_click \<lparr>label = ''Delete All'', item_senderEmail = ''news@example.com'',
                  item_action = ''delete''\<rparr> (Resolved None))
     = [(''Processing delete for news@example.com...'', True, True),
        (''Successfully processed delete for news@example.com'', False, True)]"
proof -
  let ?item = "\<lparr>label = ''Delete All'', item_senderEmail = ''news@example.com'',
                  item_action = ''delete''\<rparr>"
  have m: "?item \<in> set (buttonContainer ''news@example.com'')"
    by (simp add: buttonContainer_def actions_def)
  note t = click_sends_processAction_and_toasts
             [of ?item "''news@example.com''" "Resolved None", THEN mp, OF m]
  have 1: "sent_messages (item_click ?item (Resolved None)) =
         [\<lparr>req_type = ''processAction'', req_senderEmail = ''news@example.com'',
           req_action = item_action ?item\<rparr>]"
    using t by (rule conjunct1 [OF conjunct2])
  have 2: "toasts (item_click ?item (Resolved None)) =
         [(''Processing '' @ item_action ?item @ '' for '' @ ''news@example.com'' @ ''...'', True, True),
          (case Resolved None of
             Resolved response \<Rightarrow>
               (''Successfully processed '' @ item_action ?item @ '' for '' @ ''news@example.com'', False, True)
           | Rejected error \<Rightarrow>
               (''Failed to process '' @ item_action ?item @ '' for '' @ ''news@example.com'', False, False))]"
    using t by (rule conjunct1 [OF conjunct2 [OF conjunct2]])
  show ?thesis
    unfolding 1 2 by simp
qed

section \<open>Properties of button injection\<close>

lemma injectRow_cases:
  "injectRow row = (row, [])
   \<or> (\<not> processed row \<and> processed (fst (injectRow row))
      \<and> triggers (fst (injectRow row)) = Suc (triggers row)
      \<and> (\<exists>senderEmail. senderCell row = Some senderEmail \<and> senderEmail \<noteq> []
            \<and> snd (injectRow row) = [buttonContainer senderEmail]))"
  by (auto simp: injectRow_def processed_def classList_add_def triggers_def truthy_str_def
           split: option.splits)

lemma step_idem: "row_after (row_after row) = row_after row"
  using injectRow_cases[of row] by (auto simp: row_after_def)

lemma step_no_menu: "\<not> processed (row_after row) \<Longrightarrow> snd (injectRow (row_after row)) = []"
  using injectRow_cases[of row] by (auto simp: row_after_def)

lemma injectButtons_step:
  "injectButtons doc =
     \<lparr>emailRows = map row_after (emailRows doc),
      body_menus = body_menus doc
        @ concat (map (\<lambda>row. snd (injectRow row)) (filter (\<lambda>row. \<not> processed row) (emailRows doc)))\<rparr>"
  by (simp add: injectButtons_def)

lemma no_new_menus:
  "concat (map (\<lambda>row. snd (injectRow row)) (filter (\<lambda>row. \<not> processed row) (map row_after rows))) = []"
  by (induction rows) (auto simp: step_no_menu)

lemma injectButtons_idem: "injectButtons (injectButtons doc) = injectButtons doc"
  by (simp add: injectButtons_step no_new_menus step_idem)

lemma injectButtons_funpow: "(injectButtons ^^ Suc n) doc = injectButtons doc"
  by (induction n) (simp_all add: injectButtons_idem)

lemma step_triggers: "triggers (row_after row) \<le> Suc (triggers row)"
  using injectRow_cases[of row] by (auto simp: row_after_def)

lemma step_changed:
  "row_after row \<noteq> row \<Longrightarrow>
     \<not> processed row \<and> processed (row_after row) \<and> triggers (row_after row) = Suc (triggers row)"
  using injectRow_cases[of row] by (auto simp: row_after_def)

lemma rows_funpow:
  "emailRows ((injectButtons ^^ n) doc) = (if n = 0 then emailRows doc else map row_after (emailRows doc))"
proof (cases n)
  case 0
  then show ?thesis by simp
next
  case (Suc m)
  then show ?thesis using injectButtons_funpow[of m doc] by (simp add: injectButtons_step)
qed

lemma injectButtons_all_processed:
  assumes "\<forall>row \<in> set (emailRows doc). processed row"
  shows "injectButtons doc = doc"
proof -
  have "map row_after (emailRows doc) = emailRows doc"
    using assms by (simp add: row_after_def map_idI)
  moreover have "filter (\<lambda>row. \<not> processed row) (emailRows doc) = []"
    using assms by (simp add: filter_empty_conv)
  ultimately show ?thesis by (simp add: injectButtons_step)
qed

text \<open>
  C8. Button injection is idempotent. Running \<open>injectButtons\<close> on its own result changes
  nothing, so any number of runs after the first leaves the page as the first run left it.
  Over any number of runs a row gains at most one trigger button; a row that carries the
  class \<open>unclut-processed\<close> is never touched; every row a run changes did not carry the
  class before, carries it afterwards and has gained exactly one trigger. On a page whose
  rows all carry the class a run changes nothing.
\<close>

theorem injectButtons_idempotent:
  "injectButtons (injectButtons doc) = injectButtons doc
   \<and> (injectButtons ^^ Suc n) doc = injectButtons doc
   \<and> length (emailRows ((injectButtons ^^ n) doc)) = length (emailRows doc)
   \<and> (\<forall>i < length (emailRows doc).
        triggers (emailRows ((injectButtons ^^ n) doc) ! i) \<le> Suc (triggers (emailRows doc ! i))
        \<and> (processed (emailRows doc ! i) \<longrightarrow>
             emailRows ((injectButtons ^^ n) doc) ! i = emailRows doc ! i)
        \<and> (emailRows (injectButtons doc) ! i \<noteq> emailRows doc ! i \<longrightarrow>
             \<not> processed (emailRows doc ! i)
             \<and> processed (emailRows (injectButtons doc) ! i)
             \<and> triggers (emailRows (injectButtons doc) ! i) = Suc (triggers (emailRows doc ! i))))
   \<and> ((\<forall>row \<in> set (emailRows doc). processed row) \<longrightarrow> injectButtons doc = doc)"
proof (intro conjI allI impI)
  show "injectButtons (injectButtons doc) = injectButtons doc" by (rule injectButtons_idem)
  show "(injectButtons ^^ Suc n) doc = injectButtons doc" by (rule injectButtons_funpow)
  show "length (emailRows ((injectButtons ^^ n) doc)) = length (emailRows doc)"
    by (simp add: rows_funpow)
next
  fix i assume "i < length (emailRows doc)"
  then show "triggers (emailRows ((injectButtons ^^ n) doc) ! i) \<le> Suc (triggers (emailRows doc ! i))"
    by (simp add: rows_funpow step_triggers)
next
  fix i assume "i < length (emailRows doc)" "processed (emailRows doc ! i)"
  then show "emailRows ((injectButtons ^^ n) doc) ! i = emailRows doc ! i"
    by (simp add: rows_funpow row_after_def)
next
  fix i assume i: "i < length (emailRows doc)"
    and ne: "emailRows (injectButtons doc) ! i \<noteq> emailRows doc ! i"
  from i ne have c: "row_after (emailRows doc ! i) \<noteq> emailRows doc ! i"
    by (simp add: injectButtons_step)
  have r: "emailRows (injectButtons doc) ! i = row_after (emailRows doc ! i)"
    using i by (simp add: injectButtons_step)
  show "\<not> processed (emailRows doc ! i)" using step_changed[OF c] by simp
  show "processed (emailRows (injectButtons doc) ! i)" using step_changed[OF c] r by simp
  show "triggers (emailRows (injectButtons doc) ! i) = Suc (triggers (emailRows doc ! i))"
    using step_changed[OF c] r by simp
next
  assume "\<forall>row \<in> set (emailRows doc). processed row"
  then show "injectButtons doc = doc" by (rule injectButtons_all_processed)
qed

lemma sample_page_after:
  "emailRows (injectButtons sample_page) =
        [\<lparr>classList = [''zA'', ''unclut-processed''], senderCell = Some ''old@example.com'',
          after_senderCell = [TriggerButton, OtherNode ''span'']\<rparr>,
         \<lparr>classList = [''zA''], senderCell = None, after_senderCell = []\<rparr>,
         \<lparr>classList = [''zA'', ''unclut-processed''], senderCell = Some ''news@example.com'',
          after_senderCell = [TriggerButton, OtherNode ''span'']\<rparr>]"
  by (simp add: injectButtons_def sample_page_def row_after_def injectRow_def processed_def
        classList_add_def truthy_str_def)

text \<open>
  A page with a processed row, a row without a sender cell and a fresh row; and a page
  whose only row is processed.
\<close>

theorem injectButtons_idempotent_witness:
  "injectButtons (injectButtons sample_page) = injectButtons sample_page
   \<and> (injectButtons ^^ 3) sample_page = injectButtons sample_page
   \<and> triggers (emailRows ((injectButtons ^^ 3) sample_page) ! 2)
        \<le> Suc (triggers (emailRows sample_page ! 2))
   \<and> emailRows ((injectButtons ^^ 3) sample_page) ! 0 = emailRows sample_page ! 0
   \<and> processed (emailRows (injectButtons sample_page) ! 2)
   \<and> injectButtons processed_page = processed_page"
proof -
  note t = injectButtons_idempotent [of sample_page 2]
  note rows = t [THEN conjunct2, THEN conjunct2, THEN conjunct2, THEN conjunct1]
  have l0: "0 < length (emailRows sample_page)" and l2: "2 < length (emailRows sample_page)"
    by (simp_all add: sample_page_def)
  have p0: "processed (emailRows sample_page ! 0)"
    by (simp add: sample_page_def processed_def)
  have c2: "emailRows (injectButtons sample_page) ! 2 \<noteq> emailRows sample_page ! 2"
    by (simp add: sample_page_after) (simp add: sample_page_def)
  have 1: "injectButtons (injectButtons sample_page) = injectButtons sample_page"
    using t by (rule conjunct1)
  have 2: "(injectButtons ^^ 3) sample_page = injectButtons sample_page"
    using t [THEN conjunct2, THEN conjunct1] by (simp add: eval_nat_numeral)
  have 3: "triggers (emailRows ((injectButtons ^^ 3) sample_page) ! 2)
        \<le> Suc (triggers (emailRows sample_page ! 2))"
    using injectButtons_idempotent [of sample_page 3, THEN conjunct2, THEN conjunct2,
            THEN conjunct2, THEN conjunct1, THEN spec, THEN mp, OF l2]
    by (rule conjunct1)
  have 4: "emailRows ((injectButtons ^^ 3) sample_page) ! 0 = emailRows sample_page ! 0"
    using injectButtons_idempotent [of sample_page 3, THEN conjunct2, THEN conjunct2,
            THEN conjunct2, THEN conjunct1, THEN spec, THEN mp, OF l0] p0
    by blast
  have 5: "processed (emailRows (injectButtons sample_page) ! 2)"
    using rows [THEN spec, THEN mp, OF l2] c2 by blast
  have all: "\<forall>row \<in> set (emailRows processed_page). processed row"
    by (simp add: processed_page_def processed_def)
  have 6: "injectButtons processed_page = processed_page"
    using injectButtons_idempotent [of processed_page 0] all by blast
  from 1 2 3 4 5 6 show ?thesis by blast
qed

section \<open>Properties of waiting for the Gmail container\<close>

lemma callbacks_timeout:
  "\<forall>v \<in> set vs. \<not> isGmailReady v \<Longrightarrow>
   callbacks w i vs =
     ([WaitWarn ''[Unclut] Gmail container not found after timeout, checking anyway'']
        @ fst (cleanup w) @ [Resolve], snd (cleanup w), OnTimeout)"
  by (induction vs arbitrary: i) (simp_all split: prod.splits)

lemma callbacks_mutation:
  "k < length vs \<Longrightarrow> isGmailReady (vs ! k) \<Longrightarrow> \<forall>j<k. \<not> isGmailReady (vs ! j) \<Longrightarrow>
   callbacks w i vs =
     ([WaitLog ''[Unclut] Gmail container detected via mutation observer'']
        @ fst (cleanup w) @ [Resolve], snd (cleanup w), OnMutation (i + k))"
proof (induction vs arbitrary: i k)
  case Nil
  then show ?case by simp
next
  case (Cons v vs)
  show ?case
  proof (cases k)
    case 0
    with Cons.prems show ?thesis by (simp split: prod.splits)
  next
    case (Suc k')
    with Cons.prems have nv: "\<not> isGmailReady v" by auto
    have "k' < length vs" "isGmailReady (vs ! k')" "\<forall>j<k'. \<not> isGmailReady (vs ! j)"
      using Cons.prems Suc by auto
    from Cons.IH[OF this, of "Suc i"] nv Suc show ?thesis by simp
  qed
qed

lemma first_ready:
  "(\<forall>v \<in> set vs. \<not> isGmailReady v)
   \<or> (\<exists>k<length vs. isGmailReady (vs ! k) \<and> (\<forall>j<k. \<not> isGmailReady (vs ! j)))"
proof (induction vs)
  case Nil
  show ?case by simp
next
  case (Cons v vs)
  show ?case
  proof (cases "isGmailReady v")
    case True
    then have "0 < length (v # vs) \<and> isGmailReady ((v # vs) ! 0)
                 \<and> (\<forall>j<0. \<not> isGmailReady ((v # vs) ! j))"
      by simp
    then show ?thesis by (intro disjI2 exI[of _ 0])
  next
    case False
    from Cons.IH show ?thesis
    proof
      assume "\<forall>x \<in> set vs. \<not> isGmailReady x"
      with False show ?thesis by simp
    next
      assume "\<exists>k<length vs. isGmailReady (vs ! k) \<and> (\<forall>j<k. \<not> isGmailReady (vs ! j))"
      then obtain k where k: "k < length vs" "isGmailReady (vs ! k)"
        "\<forall>j<k. \<not> isGmailReady (vs ! j)" by blast
      have "\<forall>j<Suc k. \<not> isGmailReady ((v # vs) ! j)"
      proof (intro allI impI)
        fix j assume "j < Suc k"
        then show "\<not> isGmailReady ((v # vs) ! j)"
          using False k(3) by (cases j) simp_all
      qed
      with k(1,2) have "Suc k < length (v # vs) \<and> isGmailReady ((v # vs) ! Suc k)
                 \<and> (\<forall>j<Suc k. \<not> isGmailReady ((v # vs) ! j))"
        by simp
      then show ?thesis by (intro disjI2 exI[of _ "Suc k"])
    qed
  qed
qed

lemma cleanup_armed:
  "cleanup \<lparr>observer = True, timeoutId = True\<rparr>
     = ([Disconnect, ClearTimer], \<lparr>observer = False, timeoutId = False\<rparr>)"
  by (simp add: cleanup_def)

text \<open>
  C9, as amended. If the Gmail check passes at the call, \<open>waitForGmailContainer\<close> resolves
  at once, with no observer and no timer created. Otherwise, when \<open>document.body\<close> is an
  element, it observes the body and starts the 10000 ms timer; it resolves at the first
  run of the mutation callback that finds the check passing, and if no run does, it
  resolves when the timer fires. On both of these paths the observer is disconnected and
  the timer cleared before \<open>resolve\<close> is called. In all these cases \<open>resolve\<close> is the last
  act and is called once, afterwards there is neither an observer nor a timer id, and the
  promise does not reject. When the check fails at the call and \<open>document.body\<close> is null,
  \<open>observer.observe\<close> throws and the promise rejects: nothing is observed, no timer is
  started and \<open>resolve\<close> is not called.
\<close>

theorem waitForGmailContainer_always_resolves:
  "(isGmailReady now \<longrightarrow>
      waitForGmailContainer now mutations =
        ([WaitLog ''[Unclut] Gmail container found immediately'', Resolve],
         \<lparr>observer = False, timeoutId = False\<rparr>, Resolves Immediately))
   \<and> (\<not> isGmailReady now \<and> hasBody now \<and> k < length mutations
        \<and> isGmailReady (mutations ! k) \<and> (\<forall>j<k. \<not> isGmailReady (mutations ! j)) \<longrightarrow>
      waitForGmailContainer now mutations =
        ([WaitLog ''[Unclut] Waiting for Gmail container...'', Observe, StartTimer 10000,
          WaitLog ''[Unclut] Gmail container detected via mutation observer'',
          Disconnect, ClearTimer, Resolve],
         \<lparr>observer = False, timeoutId = False\<rparr>, Resolves (OnMutation k)))
   \<and> (\<not> isGmailReady now \<and> hasBody now \<and> (\<forall>v \<in> set mutations. \<not> isGmailReady v) \<longrightarrow>
      waitForGmailContainer now mutations =
        ([WaitLog ''[Unclut] Waiting for Gmail container...'', Observe, StartTimer 10000,
          WaitWarn ''[Unclut] Gmail container not found after timeout, checking anyway'',
          Disconnect, ClearTimer, Resolve],
         \<lparr>observer = False, timeoutId = False\<rparr>, Resolves OnTimeout))
   \<and> (\<not> isGmailReady now \<and> \<not> hasBody now \<longrightarrow>
      waitForGmailContainer now mutations =
        ([WaitLog ''[Unclut] Waiting for Gmail container...''],
         \<lparr>observer = True, timeoutId = False\<rparr>, RejectsTypeError))
   \<and> (isGmailReady now \<or> hasBody now \<longrightarrow>
        fst (waitForGmailContainer now mutations)
          = butlast (fst (waitForGmailContainer now mutations)) @ [Resolve]
        \<and> Resolve \<notin> set (butlast (fst (waitForGmailContainer now mutations)))
        \<and> fst (snd (waitForGmailContainer now mutations))
            = \<lparr>observer = False, timeoutId = False\<rparr>
        \<and> snd (snd (waitForGmailContainer now mutations)) \<noteq> RejectsTypeError)"
proof -
  have imm: "isGmailReady now \<Longrightarrow>
      waitForGmailContainer now mutations =
        ([WaitLog ''[Unclut] Gmail container found immediately'', Resolve],
         \<lparr>observer = False, timeoutId = False\<rparr>, Resolves Immediately)"
    by (simp add: waitForGmailContainer_def)
  have mut: "\<And>k. \<not> isGmailReady now \<Longrightarrow> hasBody now \<Longrightarrow> k < length mutations
        \<Longrightarrow> isGmailReady (mutations ! k)
        \<Longrightarrow> \<forall>j<k. \<not> isGmailReady (mutations ! j) \<Longrightarrow>
      waitForGmailContainer now mutations =
        ([WaitLog ''[Unclut] Waiting for Gmail container...'', Observe, StartTimer 10000,
          WaitLog ''[Unclut] Gmail container detected via mutation observer'',
          Disconnect, ClearTimer, Resolve],
         \<lparr>observer = False, timeoutId = False\<rparr>, Resolves (OnMutation k))"
    by (simp add: waitForGmailContainer_def callbacks_mutation cleanup_armed)
  have tmo: "\<not> isGmailReady now \<Longrightarrow> hasBody now
        \<Longrightarrow> \<forall>v \<in> set mutations. \<not> isGmailReady v \<Longrightarrow>
      waitForGmailContainer now mutations =
        ([WaitLog ''[Unclut] Waiting for Gmail container...'', Observe, StartTimer 10000,
          WaitWarn ''[Unclut] Gmail container not found after timeout, checking anyway'',
          Disconnect, ClearTimer, Resolve],
         \<lparr>observer = False, timeoutId = False\<rparr>, Resolves OnTimeout)"
    by (simp add: waitForGmailContainer_def callbacks_timeout cleanup_armed)
  have rej: "\<not> isGmailReady now \<Longrightarrow> \<not> hasBody now \<Longrightarrow>
      waitForGmailContainer now mutations =
        ([WaitLog ''[Unclut] Waiting for Gmail container...''],
         \<lparr>observer = True, timeoutId = False\<rparr>, RejectsTypeError)"
    by (simp add: waitForGmailContainer_def)
  have tot: "isGmailReady now \<or> hasBody now \<Longrightarrow>
        fst (waitForGmailContainer now mutations)
          = butlast (fst (waitForGmailContainer now mutations)) @ [Resolve]
        \<and> Resolve \<notin> set (butlast (fst (waitForGmailContainer now mutations)))
        \<and> fst (snd (waitForGmailContainer now mutations))
            = \<lparr>observer = False, timeoutId = False\<rparr>
        \<and> snd (snd (waitForGmailContainer now mutations)) \<noteq> RejectsTypeError"
  proof (cases "isGmailReady now")
    case True
    then show ?thesis by (simp add: imm)
  next
    case False
    assume "isGmailReady now \<or> hasBody now"
    with False have body: "hasBody now" by simp
    from first_ready[of mutations] show ?thesis
    proof
      assume "\<forall>v \<in> set mutations. \<not> isGmailReady v"
      then show ?thesis by (simp add: tmo[OF False body])
    next
      assume "\<exists>k<length mutations. isGmailReady (mutations ! k)
                \<and> (\<forall>j<k. \<not> isGmailReady (mutations ! j))"
      then obtain k where "k < length mutations" "isGmailReady (mutations ! k)"
        "\<forall>j<k. \<not> isGmailReady (mutations ! j)" by blast
      then show ?thesis by (simp add: mut[OF False body])
    qed
  qed
  show ?thesis
  proof (intro conjI)
    show "isGmailReady now \<longrightarrow>
      waitForGmailContainer now mutations =
        ([WaitLog ''[Unclut] Gmail container found immediately'', Resolve],
         \<lparr>observer = False, timeoutId = False\<rparr>, Resolves Immediately)"
      using imm by (rule impI)
  next
    show "\<not> isGmailReady now \<and> hasBody now \<and> k < length mutations
        \<and> isGmailReady (mutations ! k) \<and> (\<forall>j<k. \<not> isGmailReady (mutations ! j)) \<longrightarrow>
      waitForGmailContainer now mutations =
        ([WaitLog ''[Unclut] Waiting for Gmail container...'', Observe, StartTimer 10000,
          WaitLog ''[Unclut] Gmail container detected via mutation observer'',
          Disconnect, ClearTimer, Resolve],
         \<lparr>observer = False, timeoutId = False\<rparr>, Resolves (OnMutation k))"
    proof
      assume a: "\<not> isGmailReady now \<and> hasBody now \<and> k < length mutations
        \<and> isGmailReady (mutations ! k) \<and> (\<forall>j<k. \<not> isGmailReady (mutations ! j))"
      then have a1: "\<not> isGmailReady now" and a0: "hasBody now" and a2: "k < length mutations"
        and a3: "isGmailReady (mutations ! k)" and a4: "\<forall>j<k. \<not> isGmailReady (mutations ! j)"
        by simp_all
      show "waitForGmailContainer now mutations =
        ([WaitLog ''[Unclut] Waiting for Gmail container...'', Observe, StartTimer 10000,
          WaitLog ''[Unclut] Gmail container detected via mutation observer'',
          Disconnect, ClearTimer, Resolve],
         \<lparr>observer = False, timeoutId = False\<rparr>, Resolves (OnMutation k))"
        by (rule mut[OF a1 a0 a2 a3 a4])
    qed
  next
    show "\<not> isGmailReady now \<and> hasBody now \<and> (\<forall>v \<in> set mutations. \<not> isGmailReady v) \<longrightarrow>
      waitForGmailContainer now mutations =
        ([WaitLog ''[Unclut] Waiting for Gmail container...'', Observe, StartTimer 10000,
          WaitWarn ''[Unclut] Gmail container not found after timeout, checking anyway'',
          Disconnect, ClearTimer, Resolve],
         \<lparr>observer = False, timeoutId = False\<rparr>, Resolves OnTimeout)"
    proof
      assume a: "\<not> isGmailReady now \<and> hasBody now \<and> (\<forall>v \<in> set mutations. \<not> isGmailReady v)"
      then have a1: "\<not> isGmailReady now" and a0: "hasBody now"
        and a2: "\<forall>v \<in> set mutations. \<not> isGmailReady v"
        by simp_all
      show "waitForGmailContainer now mutations =
        ([WaitLog ''[Unclut] Waiting for Gmail container...'', Observe, StartTimer 10000,
          WaitWarn ''[Unclut] Gmail container not found after timeout, checking anyway'',
          Disconnect, ClearTimer, Resolve],
         \<lparr>observer = False, timeoutId = False\<rparr>, Resolves OnTimeout)"
        by (rule tmo[OF a1 a0 a2])
    qed
  next
    show "\<not> isGmailReady now \<and> \<not> hasBody now \<longrightarrow>
      waitForGmailContainer now mutations =
        ([WaitLog ''[Unclut] Waiting for Gmail container...''],
         \<lparr>observer = True, timeoutId = False\<rparr>, RejectsTypeError)"
    proof
      assume a: "\<not> isGmailReady now \<and> \<not> hasBody now"
      then have a1: "\<not> isGmailReady now" and a2: "\<not> hasBody now" by simp_all
      show "waitForGmailContainer now mutations =
        ([WaitLog ''[Unclut] Waiting for Gmail container...''],
         \<lparr>observer = True, timeoutId = False\<rparr>, RejectsTypeError)"
        by (rule rej[OF a1 a2])
    qed
  next
    show "isGmailReady now \<or> hasBody now \<longrightarrow>
        fst (waitForGmailContainer now mutations)
          = butlast (fst (waitForGmailContainer now mutations)) @ [Resolve]
        \<and> Resolve \<notin> set (butlast (fst (waitForGmailContainer now mutations)))
        \<and> fst (snd (waitForGmailContainer now mutations))
            = \<lparr>observer = False, timeoutId = False\<rparr>
        \<and> snd (snd (waitForGmailContainer now mutations)) \<noteq> RejectsTypeError"
      using tot by (rule impI)
  qed
qed

text \<open>
  The four paths: Gmail ready at the call; ready at the second mutation; never ready
  before the timer; not ready and no body.
\<close>

theorem waitForGmailContainer_always_resolves_witness:
  "waitForGmailContainer gmail_loaded [] =
        ([WaitLog ''[Unclut] Gmail container found immediately'', Resolve],
         \<lparr>observer = False, timeoutId = False\<rparr>, Resolves Immediately)
   \<and> waitForGmailContainer gmail_loading [gmail_loading, gmail_loaded, gmail_loaded] =
        ([WaitLog ''[Unclut] Waiting for Gmail container...'', Observe, StartTimer 10000,
          WaitLog ''[Unclut] Gmail container detected via mutation observer'',
          Disconnect, ClearTimer, Resolve],
         \<lparr>observer = False, timeoutId = False\<rparr>, Resolves (OnMutation 1))
   \<and> waitForGmailContainer gmail_loading [gmail_loading, gmail_loading] =
        ([WaitLog ''[Unclut] Waiting for Gmail container...'', Observe, StartTimer 10000,
          WaitWarn ''[Unclut] Gmail container not found after timeout, checking anyway'',
          Disconnect, ClearTimer, Resolve],
         \<lparr>observer = False, timeoutId = False\<rparr>, Resolves OnTimeout)
   \<and> waitForGmailContainer gmail_no_body [gmail_loaded] =
        ([WaitLog ''[Unclut] Waiting for Gmail container...''],
         \<lparr>observer = True, timeoutId = False\<rparr>, RejectsTypeError)
   \<and> snd (snd (waitForGmailContainer gmail_loading [gmail_loading, gmail_loading]))
        \<noteq> RejectsTypeError"
proof -
  have r: "isGmailReady gmail_loaded" and n: "\<not> isGmailReady gmail_loading"
    and nb: "\<not> isGmailReady gmail_no_body"
    by (simp_all add: isGmailReady_def gmail_loaded_def gmail_loading_def gmail_no_body_def)
  have bl: "hasBody gmail_loading" and bn: "\<not> hasBody gmail_no_body"
    by (simp_all add: gmail_loading_def gmail_no_body_def)
  have 1: "waitForGmailContainer gmail_loaded [] =
        ([WaitLog ''[Unclut] Gmail container found immediately'', Resolve],
         \<lparr>observer = False, timeoutId = False\<rparr>, Resolves Immediately)"
    using waitForGmailContainer_always_resolves
            [where now = gmail_loaded and mutations = "[]", THEN conjunct1, THEN mp, OF r] .
  have h2: "\<not> isGmailReady gmail_loading \<and> hasBody gmail_loading
        \<and> 1 < length [gmail_loading, gmail_loaded, gmail_loaded]
        \<and> isGmailReady ([gmail_loading, gmail_loaded, gmail_loaded] ! 1)
        \<and> (\<forall>j<1. \<not> isGmailReady ([gmail_loading, gmail_loaded, gmail_loaded] ! j))"
    using r n bl by simp
  have 2: "waitForGmailContainer gmail_loading [gmail_loading, gmail_loaded, gmail_loaded] =
        ([WaitLog ''[Unclut] Waiting for Gmail container...'', Observe, StartTimer 10000,
          WaitLog ''[Unclut] Gmail container detected via mutation observer'',
          Disconnect, ClearTimer, Resolve],
         \<lparr>observer = False, timeoutId = False\<rparr>, Resolves (OnMutation 1))"
    using waitForGmailContainer_always_resolves
            [where now = gmail_loading and k = 1
               and mutations = "[gmail_loading, gmail_loaded, gmail_loaded]",
             THEN conjunct2, THEN conjunct1, THEN mp, OF h2] .
  have h3: "\<not> isGmailReady gmail_loading \<and> hasBody gmail_loading
        \<and> (\<forall>v \<in> set [gmail_loading, gmail_loading]. \<not> isGmailReady v)"
    using n bl by simp
  have 3: "waitForGmailContainer gmail_loading [gmail_loading, gmail_loading] =
        ([WaitLog ''[Unclut] Waiting for Gmail container...'', Observe, StartTimer 10000,
          WaitWarn ''[Unclut] Gmail container not found after timeout, checking anyway'',
          Disconnect, ClearTimer, Resolve],
         \<lparr>observer = False, timeoutId = False\<rparr>, Resolves OnTimeout)"
    using waitForGmailContainer_always_resolves
            [where now = gmail_loading and mutations = "[gmail_loading, gmail_loading]",
             THEN conjunct2, THEN conjunct2, THEN conjunct1, THEN mp, OF h3] .
  have h4: "\<not> isGmailReady gmail_no_body \<and> \<not> hasBody gmail_no_body"
    using nb bn by simp
  have 4: "waitForGmailContainer gmail_no_body [gmail_loaded] =
        ([WaitLog ''[Unclut] Waiting for Gmail container...''],
         \<lparr>observer = True, timeoutId = False\<rparr>, RejectsTypeError)"
    using waitForGmailContainer_always_resolves
            [where now = gmail_no_body and mutations = "[gmail_loaded]",
             THEN conjunct2, THEN conjunct2, THEN conjunct2, THEN conjunct1, THEN mp, OF h4] .
  have h5: "isGmailReady gmail_loading \<or> hasBody gmail_loading"
    using bl by simp
  have 5: "snd (snd (waitForGmailContainer gmail_loading [gmail_loading, gmail_loading]))
             \<noteq> RejectsTypeError"
    using waitForGmailContainer_always_resolves
            [where now = gmail_loading and mutations = "[gmail_loading, gmail_loading]",
             THEN conjunct2, THEN conjunct2, THEN conjunct2, THEN conjunct2, THEN mp, OF h5]
    by (elim conjE)
  from 1 2 3 4 5 show ?thesis by (intro conjI)
qed

text \<open>
  C9 as stated fails: on a page that is not ready and has no body the promise rejects.
\<close>

theorem waitForGmailContainer_rejects_without_body:
  "waitForGmailContainer gmail_no_body [] =
     ([WaitLog ''[Unclut] Waiting for Gmail container...''],
      \<lparr>observer = True, timeoutId = False\<rparr>, RejectsTypeError)"
  by (simp add: waitForGmailContainer_def isGmailReady_def gmail_no_body_def)

section \<open>Properties of the popup settings\<close>

lemma loadSettings_keys:
  "map fst (fst (loadSettings st)) = [''defaultAction'', ''maxEmails'', ''showConfirmation'', ''theme'']"
  by (simp add: loadSettings_def storage_get_def DEFAULT_SETTINGS_def)



declare bit_length.simps [simp del]





lemmas parse_defs = parseInt10_def digit_run_def parse_sign_def is_ws_def is_ws2_def is_ws3_def
  is_digit_def to_double_def digits_value_def digit_value_def Let_def

lemma parseInt10_abc: "parseInt10 ''abc'' = NaN"
  by (simp add: parse_defs)









lemma saveSettings_keys:
  "map fst (saveSettings f now) = [''defaultAction'', ''maxEmails'', ''showConfirmation'', ''lastUpdated'']"
  by (simp add: saveSettings_def)

lemma storage_set_other:
  "k \<notin> set (map fst items) \<Longrightarrow> storage_set items st k = st k"
  unfolding storage_set_def
  by (induction items arbitrary: st) (auto split: prod.splits)

lemma reads_iff: "reads_storage (popup_listener ev f now) \<longleftrightarrow> ev = DOMContentLoaded"
  by (cases ev) (simp_all add: reads_storage_def popup_listener_def)

lemma writes_iff:
  "writes_storage (popup_listener ev f now) \<longleftrightarrow> ev = ClickSaveButton \<or> ev = KeyPress ''Enter''"
  by (cases ev) (simp_all add: writes_storage_def popup_listener_def)

text \<open>
  C3, as amended. When the popup opens it fetches, in one read with \<open>DEFAULT_SETTINGS\<close> as
  defaults, the four keys \<open>defaultAction\<close>, \<open>maxEmails\<close>, \<open>showConfirmation\<close> and \<open>theme\<close>. A
  click on the save button and a press of Enter each store, in one write, the flat record
  \<open>defaultAction\<close>, \<open>maxEmails\<close>, \<open>showConfirmation\<close>, \<open>lastUpdated\<close>; every other key of the
  storage, \<open>theme\<close> among them, stays as it was. No other event of the popup reads or
  writes the storage.
\<close>

theorem settings_record_lifecycle:
  "popup_listener DOMContentLoaded f now = [StorageGet DEFAULT_SETTINGS]
   \<and> map fst (fst (loadSettings st)) = [''defaultAction'', ''maxEmails'', ''showConfirmation'', ''theme'']
   \<and> popup_listener ClickSaveButton f now = [StorageSet (saveSettings f now)]
   \<and> popup_listener (KeyPress ''Enter'') f now = [StorageSet (saveSettings f now)]
   \<and> map fst (saveSettings f now)
        = [''defaultAction'', ''maxEmails'', ''showConfirmation'', ''lastUpdated'']
   \<and> (k \<notin> set [''defaultAction'', ''maxEmails'', ''showConfirmation'', ''lastUpdated'']
        \<longrightarrow> storage_set (saveSettings f now) st k = st k)
   \<and> (reads_storage (popup_listener ev f now) \<longleftrightarrow> ev = DOMContentLoaded)
   \<and> (writes_storage (popup_listener ev f now)
        \<longleftrightarrow> ev = ClickSaveButton \<or> ev = KeyPress ''Enter'')"
proof (intro conjI impI)
  show "popup_listener DOMContentLoaded f now = [StorageGet DEFAULT_SETTINGS]"
    and "popup_listener ClickSaveButton f now = [StorageSet (saveSettings f now)]"
    and "popup_listener (KeyPress ''Enter'') f now = [StorageSet (saveSettings f now)]"
    by (simp_all add: popup_listener_def)
  show "map fst (fst (loadSettings st)) = [''defaultAction'', ''maxEmails'', ''showConfirmation'', ''theme'']"
    by (rule loadSettings_keys)
  show "map fst (saveSettings f now)
        = [''defaultAction'', ''maxEmails'', ''showConfirmation'', ''lastUpdated'']"
    by (rule saveSettings_keys)
  show "reads_storage (popup_listener ev f now) \<longleftrightarrow> ev = DOMContentLoaded"
    by (rule reads_iff)
  show "writes_storage (popup_listener ev f now)
        \<longleftrightarrow> ev = ClickSaveButton \<or> ev = KeyPress ''Enter''"
    by (rule writes_iff)
next
  assume "k \<notin> set [''defaultAction'', ''maxEmails'', ''showConfirmation'', ''lastUpdated'']"
  then have "k \<notin> set (map fst (saveSettings f now))" unfolding saveSettings_keys .
  then show "storage_set (saveSettings f now) st k = st k" by (rule storage_set_other)
qed

text \<open>
  Saving over a storage that holds a theme leaves the theme; Enter writes the record.
\<close>

theorem settings_record_lifecycle_witness:
  "storage_set (saveSettings sample_form ''2025-01-01T00:00:00.000Z'') sample_storage ''theme''
     = Some (JStr ''dark'')
   \<and> popup_listener (KeyPress ''Enter'') sample_form ''2025-01-01T00:00:00.000Z''
     = [StorageSet [(''defaultAction'', JStr ''delete''), (''maxEmails'', JNum 100),
                    (''showConfirmation'', JBool False),
                    (''lastUpdated'', JStr ''2025-01-01T00:00:00.000Z'')]]"
proof -
  note t = settings_record_lifecycle
             [where f = sample_form and now = "''2025-01-01T00:00:00.000Z''"
                and st = sample_storage and k = "''theme''"]
  have h: "''theme'' \<notin> set [''defaultAction'', ''maxEmails'', ''showConfirmation'', ''lastUpdated'']"
    by simp
  have 1: "storage_set (saveSettings sample_form ''2025-01-01T00:00:00.000Z'') sample_storage ''theme''
             = sample_storage ''theme''"
    using t [THEN conjunct2, THEN conjunct2, THEN conjunct2, THEN conjunct2, THEN conjunct2,
             THEN conjunct1, THEN mp, OF h] .
  have 2: "popup_listener (KeyPress ''Enter'') sample_form ''2025-01-01T00:00:00.000Z''
             = [StorageSet (saveSettings sample_form ''2025-01-01T00:00:00.000Z'')]"
    using t [THEN conjunct2, THEN conjunct2, THEN conjunct2, THEN conjunct1] .
  show ?thesis
    unfolding 1 2
    by (simp add: sample_storage_def saveSettings_def sample_form_def or_100_def parseInt10_abc)
qed

text \<open>
  C3 as stated fails: the record that is written has the field \<open>lastUpdated\<close> and no field
  \<open>theme\<close>, and a press of Enter writes it, not only a click on the save button.
\<close>

theorem saved_record_differs:
  "map fst (saveSettings sample_form ''2025-01-01T00:00:00.000Z'')
     = [''defaultAction'', ''maxEmails'', ''showConfirmation'', ''lastUpdated'']
   \<and> map_of (saveSettings sample_form ''2025-01-01T00:00:00.000Z'') ''theme'' = None
   \<and> writes_storage (popup_listener (KeyPress ''Enter'') sample_form ''2025-01-01T00:00:00.000Z'')"
  by (simp add: saveSettings_def writes_storage_def popup_listener_def)

end
